theory Spec2Isabelle
  imports Main
begin

section \<open>Value stores (values.go)\<close>

text \<open>
  \<^verbatim>\<open>type FormValues map[string]*string\<close>: a key is absent, present with a nil pointer,
  or present with a string. The model is a map from keys to optional strings:
  \<open>fv k = None\<close> is an absent key, \<open>fv k = Some None\<close> a key whose pointer is nil and
  \<open>fv k = Some (Some s)\<close> a key holding \<open>s\<close>. Every store of the package is made by
  \<^verbatim>\<open>make(FormValues)\<close>, so a receiver is an allocated map.
  A \<^verbatim>\<open>*FormValues\<close> is an optional store, \<open>None\<close> being the nil pointer.
\<close>

type_synonym FormValues = "string \<rightharpoonup> string option"

record FormData =
  ID :: string
  Values :: "FormValues option"

definition NewFormValues :: "FormValues option" where
  "NewFormValues = Some Map.empty"

definition NewFormData :: "string \<Rightarrow> FormData" where
  "NewFormData i = \<lparr>FormData.ID = i, Values = NewFormValues\<rparr>"

text \<open>The contents of the store of some data; a nil store pointer holds nothing.\<close>

definition storeOf :: "FormData \<Rightarrow> FormValues" where
  "storeOf d = (case Values d of Some v \<Rightarrow> v | None \<Rightarrow> Map.empty)"

definition FormValues_Set :: "FormValues \<Rightarrow> string \<Rightarrow> string \<Rightarrow> FormValues" where
  "FormValues_Set fv key val = fv(key \<mapsto> Some val)"

definition FormValues_Get :: "FormValues \<Rightarrow> string \<Rightarrow> string \<times> bool" where
  "FormValues_Get fv key =
     (case fv key of
        Some (Some v) \<Rightarrow> (v, True)
      | _ \<Rightarrow> ('''', False))"

definition FormValues_Has :: "FormValues \<Rightarrow> string \<Rightarrow> bool" where
  "FormValues_Has fv key = (fv key \<noteq> None)"

definition FormValues_Delete :: "FormValues \<Rightarrow> string \<Rightarrow> FormValues" where
  "FormValues_Delete fv key = fv(key := None)"

text \<open>
  \<^verbatim>\<open>Merge\<close> returns at once on a nil \<^verbatim>\<open>other\<close>; otherwise each entry of \<^verbatim>\<open>*other\<close>
  is written into the receiver, a non-nil pointer as a pointer to a copy of its string, a nil
  pointer as nil. Keys of a Go map are unique, so the order of the \<^verbatim>\<open>range\<close> is immaterial
  and the loop is the key-wise overwrite below. The receiver is mutated in place; the model
  returns its new contents.
\<close>

definition FormValues_Merge :: "FormValues \<Rightarrow> FormValues option \<Rightarrow> FormValues" where
  "FormValues_Merge fv other =
     (case other of
        None \<Rightarrow> fv
      | Some ov \<Rightarrow>
          (\<lambda>k. case ov k of
                 None \<Rightarrow> fv k
               | Some v \<Rightarrow> (case v of Some s \<Rightarrow> Some (Some s) | None \<Rightarrow> Some None)))"

section \<open>Errors\<close>

text \<open>
  The sentinel errors of the package, an error made by the host with \<^verbatim>\<open>errors.New\<close>
  (\<open>ErrorString\<close>), and the two error structs that the navigation engine builds.
\<close>

datatype error =
    ErrInvalidFormIndex
  | ErrFormNotFound
  | ErrNoFormsProvided
  | ErrNoValidForms
  | ErrNoGenerator
  | ErrNilForm
  | ErrEmptyFormID
  | ErrorString string
  | CupSleeveError string error
  | DuplicateFormIDError string int int

definition NewCupSleeveError :: "string \<Rightarrow> error \<Rightarrow> error" where
  "NewCupSleeveError formID err = CupSleeveError formID err"


section \<open>Forms\<close>

text \<open>
  The widget \<^verbatim>\<open>*huh.Form\<close> is opaque to the engine, which reads only its \<^verbatim>\<open>State\<close>.
  The callbacks of a form are host code. A skip condition and a navigation handler are
  modelled by the value they return for the data they are handed. A completion handler is
  handed a pointer to the step's data and the controller's own pointer to the global data:
  it may write to both stores and may reassign the fields of both structs, the
  \<^verbatim>\<open>Values\<close> pointer of the global data to nil included. It is modelled by the error it
  returns, the contents it leaves in the step store it was handed, and the step data and the
  global data as it leaves them. A skip condition called by \<^verbatim>\<open>initCurrentForm\<close> is
  handed the controller's own pointer too; as a predicate it is taken to leave the data as
  it is. A nil callback is \<open>None\<close>.
\<close>

datatype FormState = HuhStateNormal | HuhStateCompleted | HuhStateAborted

record HuhForm =
  State :: FormState

type_synonym FormGenerator = "FormValues option \<Rightarrow> FormValues option \<Rightarrow> HuhForm option"
type_synonym CompletionHandler =
  "FormData \<Rightarrow> FormData \<Rightarrow> error option \<times> FormValues \<times> FormData \<times> FormData"
type_synonym SkipCondition = "FormData \<Rightarrow> FormData \<Rightarrow> bool"
type_synonym NavigationHandler = "FormData \<Rightarrow> int"

record Form =
  ID :: string
  Name :: string
  Group :: string
  Generator :: "FormGenerator option"
  OnComplete :: "CompletionHandler option"
  ShouldSkip :: "SkipCondition option"
  NextForm :: "NavigationHandler option"
  ShowStatus :: bool

definition NewForm :: "string \<Rightarrow> string \<Rightarrow> Form" where
  "NewForm i name =
     \<lparr>Form.ID = i, Name = name, Group = '''', Generator = None, OnComplete = None,
      ShouldSkip = None, NextForm = None, ShowStatus = True\<rparr>"

definition WithGenerator :: "Form \<Rightarrow> FormGenerator \<Rightarrow> Form" where
  "WithGenerator f gen = f\<lparr>Generator := Some gen\<rparr>"

definition WithOnComplete :: "Form \<Rightarrow> CompletionHandler \<Rightarrow> Form" where
  "WithOnComplete f handler = f\<lparr>OnComplete := Some handler\<rparr>"

definition WithSkipCondition :: "Form \<Rightarrow> SkipCondition \<Rightarrow> Form" where
  "WithSkipCondition f condition = f\<lparr>ShouldSkip := Some condition\<rparr>"

definition WithNavigation :: "Form \<Rightarrow> NavigationHandler \<Rightarrow> Form" where
  "WithNavigation f handler = f\<lparr>NextForm := Some handler\<rparr>"

section \<open>Navigator\<close>

text \<open>
  Indices are Go \<^verbatim>\<open>int\<close>s. The engine never computes with them beyond \<^verbatim>\<open>currentIdx+1\<close>
  for an index below the length of the slice, so they are modelled as unbounded integers.
\<close>

record Navigator =
  forms :: "Form list"
  currentIdx :: int
  history :: "int list"

definition NewNavigator :: "Form list \<Rightarrow> Navigator" where
  "NewNavigator fs = \<lparr>Navigator.forms = fs, currentIdx = -1, history = []\<rparr>"

definition Current :: "Navigator \<Rightarrow> Form option" where
  "Current n =
     (if currentIdx n \<ge> 0 \<and> currentIdx n < int (length (Navigator.forms n))
      then Some (Navigator.forms n ! nat (currentIdx n))
      else None)"

text \<open>
  \<^verbatim>\<open>findNextValidForm\<close> is only called with \<^verbatim>\<open>0\<close> and with \<^verbatim>\<open>currentIdx+1\<close> for a
  non-negative \<^verbatim>\<open>currentIdx\<close>, so its loop variable is a natural number. Its error
  result is always nil.
\<close>

function findNextValidForm :: "Navigator \<Rightarrow> nat \<Rightarrow> FormData \<Rightarrow> error + int" where
  "findNextValidForm n i globalData =
     (if i < length (Navigator.forms n) then
        (let form = Navigator.forms n ! i;
             tempData = \<lparr>FormData.ID = Form.ID form, Values = NewFormValues\<rparr>
         in if (case ShouldSkip form of None \<Rightarrow> True | Some p \<Rightarrow> \<not> p tempData globalData)
            then Inr (int i)
            else findNextValidForm n (Suc i) globalData)
      else Inr (-1))"
  by pat_completeness auto
termination
  by (relation "measure (\<lambda>(n, i, g). length (Navigator.forms n) - i)") auto

declare findNextValidForm.simps [simp del]

definition Next :: "Navigator \<Rightarrow> FormData \<Rightarrow> error + int" where
  "Next n data =
     (case Current n of
        None \<Rightarrow> findNextValidForm n 0 data
      | Some current \<Rightarrow>
          (case NextForm current of
             Some h \<Rightarrow>
               (let nextIdx = h data
                in if nextIdx = -1
                   then findNextValidForm n (nat (currentIdx n + 1)) data
                   else Inr nextIdx)
           | None \<Rightarrow> findNextValidForm n (nat (currentIdx n + 1)) data))"

text \<open>
  The mutating methods return the navigator they leave behind next to their result.
\<close>

definition MoveTo :: "Navigator \<Rightarrow> int \<Rightarrow> error option \<times> Navigator" where
  "MoveTo n index =
     (if index < 0 \<or> index \<ge> int (length (Navigator.forms n))
      then (Some ErrInvalidFormIndex, n)
      else
        (let n1 = (if currentIdx n \<ge> 0 then n\<lparr>history := history n @ [currentIdx n]\<rparr> else n)
         in (None, n1\<lparr>currentIdx := index\<rparr>)))"

definition MoveToFirstValid :: "Navigator \<Rightarrow> FormData \<Rightarrow> error option \<times> Navigator" where
  "MoveToFirstValid n globalData =
     (case findNextValidForm n 0 globalData of
        Inl err \<Rightarrow> (Some err, n)
      | Inr nextIdx \<Rightarrow>
          if nextIdx = -1 then (Some ErrNoValidForms, n)
          else (None, n\<lparr>currentIdx := nextIdx\<rparr>))"

definition Back :: "Navigator \<Rightarrow> bool \<times> Navigator" where
  "Back n =
     (if length (history n) = 0 then (False, n)
      else (True, n\<lparr>currentIdx := history n ! (length (history n) - 1),
                     history := take (length (history n) - 1) (history n)\<rparr>))"

definition HasNext :: "Navigator \<Rightarrow> bool" where
  "HasNext n = (currentIdx n < int (length (Navigator.forms n)) - 1)"

definition HasPrevious :: "Navigator \<Rightarrow> bool" where
  "HasPrevious n = (length (history n) > 0)"

definition Reset :: "Navigator \<Rightarrow> Navigator" where
  "Reset n = n\<lparr>currentIdx := -1, history := []\<rparr>"

text \<open>A sequence of the mutating operations, applied from left to right.\<close>

datatype NavOp = OpMoveTo int | OpMoveToFirstValid FormData | OpBack | OpReset

fun applyNavOp :: "Navigator \<Rightarrow> NavOp \<Rightarrow> Navigator" where
  "applyNavOp n (OpMoveTo i) = snd (MoveTo n i)"
| "applyNavOp n (OpMoveToFirstValid g) = snd (MoveToFirstValid n g)"
| "applyNavOp n OpBack = snd (Back n)"
| "applyNavOp n OpReset = Reset n"

definition runNavOps :: "Navigator \<Rightarrow> NavOp list \<Rightarrow> Navigator" where
  "runNavOps n ops = foldl applyNavOp n ops"

text \<open>The invariant of the navigator over \<open>N\<close> forms.\<close>

definition navInv :: "Navigator \<Rightarrow> bool" where
  "navInv n =
     ((currentIdx n = -1 \<or> (0 \<le> currentIdx n \<and> currentIdx n < int (length (Navigator.forms n))))
      \<and> list_all (\<lambda>h. 0 \<le> h \<and> h < int (length (Navigator.forms n))) (history n))"

text \<open>
  The skip check of the default search, as the specification words it: the predicate of a
  candidate is applied to an empty local snapshot carrying the candidate's ID, paired with
  the global data handed to the search; an absent predicate never skips.
\<close>

definition skippedWithEmptyLocal :: "Form \<Rightarrow> FormData \<Rightarrow> bool" where
  "skippedWithEmptyLocal form globalData =
     (case ShouldSkip form of
        None \<Rightarrow> False
      | Some p \<Rightarrow> p \<lparr>FormData.ID = Form.ID form, Values = Some Map.empty\<rparr> globalData)"

text \<open>Where the default search starts: after the current form, or at 0 without one.\<close>

definition searchStart :: "Navigator \<Rightarrow> nat" where
  "searchStart n = (case Current n of None \<Rightarrow> 0 | Some c \<Rightarrow> nat (currentIdx n + 1))"




section \<open>Session controller (bobarista.go, builder.go)\<close>

datatype BobaState = StateActive | StateCompleted | StateError

text \<open>
  The two callbacks of the flow are handed the controller itself. They are modelled by what
  they return for the global data that \<^verbatim>\<open>GetGlobalData\<close> shows them, together with the
  contents they leave in the global store. Rendering fields are left out.
\<close>

record Recipe =
  Title :: string
  MaxWidth :: int
  DisplayKeys :: "string list"
  ColorScheme :: string
  Debug :: bool
  OnInit :: "(FormData \<Rightarrow> FormData list \<Rightarrow> FormValues) option"
  OnComplete :: "(FormData \<Rightarrow> error option \<times> FormValues) option"

record BobaBuilder =
  config :: Recipe
  forms :: "Form list"

text \<open>
  \<^verbatim>\<open>globalData\<close> is a pointer and \<^verbatim>\<open>formValues\<close> a map that \<^verbatim>\<open>Build\<close> leaves nil:
  both are optional. The renderer is presentation and is left out.
\<close>

record Bobarista =
  config :: Recipe
  forms :: "Form list"
  navigator :: Navigator
  globalData :: "FormData option"
  currentForm :: "HuhForm option"
  state :: BobaState
  errors :: "error list"
  formValues :: "(string \<rightharpoonup> FormValues) option"

text \<open>
  What a method hands back to the event loop: \<^verbatim>\<open>nil\<close>, \<^verbatim>\<open>tea.Quit\<close>, or a command of the
  widget. A method either returns, leaving the controller in a new state, or panics on a nil
  pointer.
\<close>

datatype Cmd = CmdNil | CmdQuit | CmdForm

datatype Outcome = Panic | Return Bobarista Cmd

definition New :: "string \<Rightarrow> BobaBuilder" where
  "New title =
     \<lparr>BobaBuilder.config =
        \<lparr>Title = title, MaxWidth = 180, DisplayKeys = [], ColorScheme = [], Debug = False,
         OnInit = None, OnComplete = None\<rparr>,
      forms = []\<rparr>"

definition AddForm :: "BobaBuilder \<Rightarrow> Form \<Rightarrow> BobaBuilder" where
  "AddForm b form = b\<lparr>BobaBuilder.forms := BobaBuilder.forms b @ [form]\<rparr>"

definition Build :: "BobaBuilder \<Rightarrow> Bobarista" where
  "Build b =
     (let cfg = (if ColorScheme (BobaBuilder.config b) = []
                 then (BobaBuilder.config b)\<lparr>ColorScheme := ''default''\<rparr>
                 else BobaBuilder.config b)
      in \<lparr>Bobarista.config = cfg,
          forms = BobaBuilder.forms b,
          navigator = NewNavigator (BobaBuilder.forms b),
          globalData = Some \<lparr>FormData.ID = ''global'', Values = NewFormValues\<rparr>,
          currentForm = None,
          state = StateActive,
          errors = [],
          formValues = None\<rparr>)"

text \<open>
  \<^verbatim>\<open>addError\<close> appends an error that is already a \<^verbatim>\<open>CupSleeveError\<close> as it is and wraps
  any other error with the form ID it is given.
\<close>

definition addError :: "Bobarista \<Rightarrow> string \<Rightarrow> error \<Rightarrow> Bobarista" where
  "addError f formID err =
     f\<lparr>errors := errors f @ [case err of
                               CupSleeveError i e \<Rightarrow> err
                             | _ \<Rightarrow> NewCupSleeveError formID err],
       state := StateError\<rparr>"

definition GetGlobalData :: "Bobarista \<Rightarrow> FormData" where
  "GetGlobalData f =
     (case globalData f of
        None \<Rightarrow> \<lparr>FormData.ID = ''global'', Values = NewFormValues\<rparr>
      | Some g \<Rightarrow> g)"

text \<open>Reading a key of the per-step cache; a nil map holds no key.\<close>

definition lookupFormValues :: "(string \<rightharpoonup> FormValues) option \<Rightarrow> string \<Rightarrow> FormValues option" where
  "lookupFormValues m k = (case m of None \<Rightarrow> None | Some c \<Rightarrow> c k)"

definition GetCurrentFormData :: "Bobarista \<Rightarrow> FormData" where
  "GetCurrentFormData f =
     (case Current (navigator f) of
        None \<Rightarrow> \<lparr>FormData.ID = [], Values = NewFormValues\<rparr>
      | Some current \<Rightarrow>
          (let currentValues =
                 (case lookupFormValues (formValues f) (Form.ID current) of
                    Some stored \<Rightarrow> stored
                  | None \<Rightarrow> Map.empty)
           in \<lparr>FormData.ID = Form.ID current, Values = Some currentValues\<rparr>))"

definition GetErrors :: "Bobarista \<Rightarrow> error list" where
  "GetErrors f = errors f"

text \<open>
  The callbacks of the flow see the global data through \<^verbatim>\<open>GetGlobalData\<close>, a copy of
  the struct: they can write to the store behind its pointer but cannot reassign the fields
  of the controller's global data. The store behind a non-nil pointer takes the contents the
  callback leaves, and nothing is written through a nil one.
\<close>

definition writeStore :: "FormData \<Rightarrow> FormValues \<Rightarrow> FormData" where
  "writeStore d v = (case Values d of None \<Rightarrow> d | Some old \<Rightarrow> d\<lparr>Values := Some v\<rparr>)"

text \<open>
  Debug logging is left out, but for its reads: with \<^verbatim>\<open>config.Debug\<close> set,
  \<^verbatim>\<open>initCurrentForm\<close> and \<^verbatim>\<open>handleFormCompletion\<close> range over
  \<^verbatim>\<open>*f.globalData.Values\<close> for the log, which panics when either pointer is nil.
\<close>

definition debugPanics :: "Bobarista \<Rightarrow> bool" where
  "debugPanics f =
     (Debug (Bobarista.config f)
      \<and> (case globalData f of None \<Rightarrow> True | Some g \<Rightarrow> Values g = None))"

text \<open>
  The end of \<^verbatim>\<open>initCurrentForm\<close>, for a form that is not skipped: a missing generator and
  a generator that returns nil are errors of the flow; \<^verbatim>\<open>f.globalData.Values\<close> is read for
  the call of the generator.
\<close>

definition generateCurrentForm :: "Bobarista \<Rightarrow> Form \<Rightarrow> FormValues \<Rightarrow> Outcome" where
  "generateCurrentForm f current currentValues =
     (case Generator current of
        None \<Rightarrow>
          Return (addError f (Form.ID current) (NewCupSleeveError (Form.ID current) ErrNoGenerator))
                 CmdNil
      | Some gen \<Rightarrow>
          (case globalData f of
             None \<Rightarrow> Panic
           | Some g \<Rightarrow>
               (case gen (Some currentValues) (Values g) of
                  None \<Rightarrow>
                    Return (addError (f\<lparr>currentForm := None\<rparr>) (Form.ID current)
                              (NewCupSleeveError (Form.ID current) ErrNilForm))
                           CmdNil
                | Some w \<Rightarrow> Return (f\<lparr>currentForm := Some w\<rparr>) CmdForm)))"

text \<open>
  \<^verbatim>\<open>initCurrentForm\<close> calls itself after skipping a form, and a navigation handler may
  send it back to a skipped form for ever: not returning is the value \<open>None\<close>.
  The skip condition is handed the pointer \<^verbatim>\<open>f.globalData\<close> and \<^verbatim>\<open>Next\<close> its target; on
  a nil \<^verbatim>\<open>globalData\<close> the first use of it is the panic.
\<close>

partial_function (option) initCurrentForm :: "Bobarista \<Rightarrow> Outcome option" where
  "initCurrentForm f =
     (case Current (navigator f) of
        None \<Rightarrow> Some (Return (f\<lparr>state := StateCompleted\<rparr>) CmdNil)
      | Some current \<Rightarrow>
          (let cache0 = (case formValues f of None \<Rightarrow> Map.empty | Some c \<Rightarrow> c);
               cache = (case cache0 (Form.ID current) of
                          None \<Rightarrow> cache0(Form.ID current \<mapsto> Map.empty)
                        | Some stored \<Rightarrow> cache0);
               f1 = f\<lparr>formValues := Some cache\<rparr>;
               currentValues = (case cache (Form.ID current) of
                                  Some stored \<Rightarrow> stored
                                | None \<Rightarrow> Map.empty);
               currentData = \<lparr>FormData.ID = Form.ID current, Values = Some currentValues\<rparr>
           in if debugPanics f1 then Some Panic
              else case ShouldSkip current of
                None \<Rightarrow> Some (generateCurrentForm f1 current currentValues)
              | Some p \<Rightarrow>
                  (case globalData f1 of
                     None \<Rightarrow> Some Panic
                   | Some g \<Rightarrow>
                       if p currentData g then
                         (case Next (navigator f1) g of
                            Inl err \<Rightarrow> Some (Return (addError f1 (Form.ID current) err) CmdNil)
                          | Inr nextIndex \<Rightarrow>
                              if nextIndex = -1 \<or> nextIndex = -2
                              then Some (Return (f1\<lparr>state := StateCompleted\<rparr>) CmdNil)
                              else
                                (case MoveTo (navigator f1) nextIndex of
                                   (Some err, n') \<Rightarrow>
                                     Some (Return (addError (f1\<lparr>navigator := n'\<rparr>)
                                                     (Form.ID current) err) CmdNil)
                                 | (None, n') \<Rightarrow> initCurrentForm (f1\<lparr>navigator := n'\<rparr>)))
                       else Some (generateCurrentForm f1 current currentValues))))"

text \<open>
  The data of the step being completed: the cached store of the current form, or a fresh
  empty one when the cache has none, under the form's ID.
\<close>

definition currentStepData :: "Bobarista \<Rightarrow> Form \<Rightarrow> FormData" where
  "currentStepData f current =
     \<lparr>FormData.ID = Form.ID current,
      Values = Some (case lookupFormValues (formValues f) (Form.ID current) of
                       Some stored \<Rightarrow> stored
                     | None \<Rightarrow> Map.empty)\<rparr>"

text \<open>
  The call of the completion handler, when there is one: the error it returns, the contents
  it leaves in the step store, and the step data and the global data as it leaves them.
  Without a handler nothing changes.
\<close>

definition callOnComplete ::
  "Form \<Rightarrow> FormData \<Rightarrow> FormData \<Rightarrow> error option \<times> FormValues \<times> FormData \<times> FormData" where
  "callOnComplete current currentData g =
     (case Form.OnComplete current of
        None \<Rightarrow> (None, storeOf currentData, currentData, g)
      | Some h \<Rightarrow> h currentData g)"

text \<open>
  The step store handed to the handler is the map of the cache entry when there is one, so
  the contents the handler leaves in it are then in the cache; a fresh store is dropped
  after the merge.
\<close>

definition writeBack :: "Bobarista \<Rightarrow> Form \<Rightarrow> FormValues \<Rightarrow> (string \<rightharpoonup> FormValues) option" where
  "writeBack f current stored =
     (case formValues f of
        None \<Rightarrow> None
      | Some c \<Rightarrow>
          (case c (Form.ID current) of
             Some old \<Rightarrow> Some (c(Form.ID current \<mapsto> stored))
           | None \<Rightarrow> Some c))"

text \<open>
  In \<^verbatim>\<open>handleFormCompletion\<close> a nil \<^verbatim>\<open>globalData\<close> panics where it is first
  dereferenced, by the handler or by the merge. After a handler that returned no error the
  debug log reads \<^verbatim>\<open>*currentData.Values\<close> and \<^verbatim>\<open>*f.globalData.Values\<close>, and the
  merge reads \<^verbatim>\<open>*f.globalData.Values\<close>: a store pointer that the handler set to nil
  panics there. A nil \<^verbatim>\<open>currentData.Values\<close> is otherwise merged as nothing.
\<close>

definition handleFormCompletion :: "Bobarista \<Rightarrow> Outcome option" where
  "handleFormCompletion f =
     (case Current (navigator f) of
        None \<Rightarrow> Some (Return (f\<lparr>state := StateCompleted\<rparr>) CmdNil)
      | Some current \<Rightarrow>
          if debugPanics f then Some Panic
          else
            (case globalData f of
               None \<Rightarrow> Some Panic
             | Some g \<Rightarrow>
                 (case callOnComplete current (currentStepData f current) g of
                    (Some err, stored, currentData, g1) \<Rightarrow>
                      Some (Return (addError (f\<lparr>globalData := Some g1,
                                                formValues := writeBack f current stored\<rparr>)
                                      (Form.ID current) err) CmdNil)
                  | (None, stored, currentData, g1) \<Rightarrow>
                      if Debug (Bobarista.config f) \<and> Values currentData = None then Some Panic
                      else
                        (case Values g1 of
                           None \<Rightarrow> Some Panic
                         | Some gv \<Rightarrow>
                             (let g2 = g1\<lparr>Values := Some (FormValues_Merge gv (Values currentData))\<rparr>;
                                  f2 = f\<lparr>globalData := Some g2,
                                         formValues := writeBack f current stored\<rparr>
                              in case Next (navigator f2) g2 of
                                   Inl err \<Rightarrow> Some (Return (addError f2 (Form.ID current) err) CmdNil)
                                 | Inr nextIndex \<Rightarrow>
                                     if nextIndex = -2
                                     then Some (Return (f2\<lparr>state := StateCompleted\<rparr>) CmdNil)
                                     else if nextIndex = -1
                                     then Some (Return (f2\<lparr>state := StateCompleted\<rparr>) CmdNil)
                                     else
                                       (case MoveTo (navigator f2) nextIndex of
                                          (Some err, n') \<Rightarrow>
                                            Some (Return (addError (f2\<lparr>navigator := n'\<rparr>)
                                                            (Form.ID current) err) CmdNil)
                                        | (None, n') \<Rightarrow>
                                            initCurrentForm (f2\<lparr>navigator := n'\<rparr>)))))))"

text \<open>
  Messages of the event loop. The widget is external: the form that
  \<^verbatim>\<open>f.currentForm.Update(msg)\<close> hands back comes with the event.
\<close>

datatype Msg = WindowSizeMsg int int | KeyMsg string | OtherMsg

definition updateCurrentForm :: "Bobarista \<Rightarrow> HuhForm \<Rightarrow> Outcome option" where
  "updateCurrentForm f w =
     (case currentForm f of
        None \<Rightarrow> Some (Return f CmdNil)
      | Some old \<Rightarrow>
          (let f1 = f\<lparr>currentForm := Some w\<rparr>
           in if State w = HuhStateCompleted then handleFormCompletion f1
              else Some (Return f1 CmdForm)))"

definition handleCompletedState :: "Bobarista \<Rightarrow> string \<Rightarrow> Outcome" where
  "handleCompletedState f key =
     (if key = ''up'' then Return f CmdNil
      else if key = ''down'' then Return f CmdNil
      else if key = ''q'' \<or> key = ''esc'' then Return f CmdQuit
      else if key = ''enter'' then
        (case (if state f = StateCompleted then Recipe.OnComplete (Bobarista.config f) else None) of
           Some h \<Rightarrow>
             (case h (GetGlobalData f) of
                (e, gv) \<Rightarrow>
                  (let f1 = f\<lparr>globalData := map_option (\<lambda>g. writeStore g gv) (globalData f)\<rparr>
                   in case e of
                        Some err \<Rightarrow> Return (addError f1 [] err) CmdNil
                      | None \<Rightarrow> Return f1 CmdQuit))
         | None \<Rightarrow> Return f CmdQuit)
      else Return f CmdNil)"

definition Update :: "Bobarista \<Rightarrow> Msg \<Rightarrow> HuhForm \<Rightarrow> Outcome option" where
  "Update f msg w =
     (case msg of
        WindowSizeMsg width height \<Rightarrow>
          (case currentForm f of
             Some old \<Rightarrow> Some (Return (f\<lparr>currentForm := Some w\<rparr>) CmdForm)
           | None \<Rightarrow> Some (Return f CmdNil))
      | KeyMsg key \<Rightarrow>
          if state f = StateCompleted \<or> state f = StateError
          then Some (handleCompletedState f key)
          else if key = ''ctrl+c'' then Some (Return f CmdQuit)
          else if key = ''esc'' then Some (Return f CmdQuit)
          else if state f = StateActive \<and> currentForm f \<noteq> None
          then updateCurrentForm f w
          else Some (Return f CmdNil)
      | OtherMsg \<Rightarrow>
          if state f = StateActive \<and> currentForm f \<noteq> None
          then updateCurrentForm f w
          else Some (Return f CmdNil))"

definition Init :: "Bobarista \<Rightarrow> Outcome option" where
  "Init f =
     (let f1 = (if globalData f = None
                then f\<lparr>globalData := Some \<lparr>FormData.ID = ''global'', Values = NewFormValues\<rparr>\<rparr>
                else f);
          f2 = (if formValues f1 = None then f1\<lparr>formValues := Some Map.empty\<rparr> else f1);
          f3 = (case OnInit (Bobarista.config f2) of
                  None \<Rightarrow> f2
                | Some h \<Rightarrow>
                    (let formDataList =
                           map (\<lambda>form. \<lparr>FormData.ID = Form.ID form, Values = NewFormValues\<rparr>)
                               (Bobarista.forms f2)
                     in f2\<lparr>globalData :=
                             map_option (\<lambda>g. writeStore g (h (GetGlobalData f2) formDataList))
                                        (globalData f2)\<rparr>))
      in case globalData f3 of
           None \<Rightarrow> Some Panic
         | Some g \<Rightarrow>
             (case MoveToFirstValid (navigator f3) g of
                (Some err, n') \<Rightarrow> Some (Return (addError (f3\<lparr>navigator := n'\<rparr>) [] err) CmdNil)
              | (None, n') \<Rightarrow> initCurrentForm (f3\<lparr>navigator := n'\<rparr>)))"

text \<open>What a returning method leaves behind.\<close>

definition returned :: "Outcome option \<Rightarrow> Bobarista option" where
  "returned r = (case r of Some (Return f cmd) \<Rightarrow> Some f | _ \<Rightarrow> None)"

text \<open>The global data, when set, has a store.\<close>

definition globalInv :: "Bobarista \<Rightarrow> bool" where
  "globalInv f = (case globalData f of None \<Rightarrow> True | Some g \<Rightarrow> Values g \<noteq> None)"

text \<open>
  No completion handler of the forms takes the store away from global data that has one.
\<close>

definition keepsGlobalStore :: "Form list \<Rightarrow> bool" where
  "keepsGlobalStore fs =
     (\<forall>form \<in> set fs. \<forall>h cd g. Form.OnComplete form = Some h \<and> Values g \<noteq> None
          \<longrightarrow> Values (snd (snd (snd (h cd g)))) \<noteq> None)"

text \<open>
  What every step of the controller keeps: the forms of the navigator; the store of the
  global data, as long as the completion handlers leave it there; and the session state,
  but for a change to Completed or Error.
\<close>

definition stepKeeps :: "Bobarista \<Rightarrow> Bobarista \<Rightarrow> bool" where
  "stepKeeps f f' =
     ((globalInv f \<and> keepsGlobalStore (Navigator.forms (navigator f)) \<longrightarrow> globalInv f')
      \<and> Navigator.forms (navigator f') = Navigator.forms (navigator f)
      \<and> (state f' = state f \<or> state f' = StateCompleted \<or> state f' = StateError))"

text \<open>
  A run of the controller. Between two events the host (a generator, a widget, a callback
  that kept a pointer) may write to the stores it was handed: the contents of the global
  store and of the cached step stores change, the pointers do not.
\<close>

datatype Event =
    EvInit
  | EvUpdate Msg HuhForm
  | EvWrite "FormValues \<Rightarrow> FormValues" "string \<Rightarrow> FormValues \<Rightarrow> FormValues"

definition hostWrite :: "Bobarista \<Rightarrow> (FormValues \<Rightarrow> FormValues) \<Rightarrow> (string \<Rightarrow> FormValues \<Rightarrow> FormValues) \<Rightarrow> Bobarista" where
  "hostWrite f gw sw =
     f\<lparr>globalData := map_option (\<lambda>g. g\<lparr>Values := map_option gw (Values g)\<rparr>) (globalData f),
       formValues := map_option (\<lambda>c k. map_option (sw k) (c k)) (formValues f)\<rparr>"

fun applyEvent :: "Bobarista \<Rightarrow> Event \<Rightarrow> Outcome option" where
  "applyEvent f EvInit = Init f"
| "applyEvent f (EvUpdate msg w) = Update f msg w"
| "applyEvent f (EvWrite gw sw) = Some (Return (hostWrite f gw sw) CmdNil)"

fun runEvents :: "Bobarista \<Rightarrow> Event list \<Rightarrow> Outcome option" where
  "runEvents f [] = Some (Return f CmdNil)"
| "runEvents f (e # es) =
     (case applyEvent f e of
        Some (Return f' cmd) \<Rightarrow> runEvents f' es
      | Some Panic \<Rightarrow> Some Panic
      | None \<Rightarrow> None)"

text \<open>The same flow with other skip conditions: form \<open>k\<close> gets the condition \<open>s k\<close>.\<close>

definition withSkipConditions :: "(nat \<Rightarrow> SkipCondition option) \<Rightarrow> Form list \<Rightarrow> Form list" where
  "withSkipConditions s fs = map (\<lambda>k. (fs ! k)\<lparr>ShouldSkip := s k\<rparr>) [0..<length fs]"

definition replaceSkipConditions :: "(nat \<Rightarrow> SkipCondition option) \<Rightarrow> Bobarista \<Rightarrow> Bobarista" where
  "replaceSkipConditions s f =
     f\<lparr>Bobarista.forms := withSkipConditions s (Bobarista.forms f),
       navigator := (navigator f)\<lparr>Navigator.forms := withSkipConditions s (Navigator.forms (navigator f))\<rparr>\<rparr>"

section \<open>Example flows\<close>

text \<open>
  A flow of three forms A, B, C. The skip condition of B skips unless the global key
  \<open>type\<close> is \<open>full\<close>, or when B's own local store holds \<open>seen\<close>.
\<close>

definition skipB :: SkipCondition where
  "skipB cur glob =
     (case Values cur of
        Some cv \<Rightarrow>
          (if cv ''seen'' \<noteq> None then True
           else (case Values glob of
                   Some gv \<Rightarrow> gv ''type'' \<noteq> Some (Some ''full'')
                 | None \<Rightarrow> True))
      | None \<Rightarrow> True)"

definition formsABC :: "Form list" where
  "formsABC = [NewForm ''A'' ''Form A'',
               WithSkipCondition (NewForm ''B'' ''Form B'') skipB,
               NewForm ''C'' ''Form C'']"

definition globalQuick :: FormData where
  "globalQuick = \<lparr>FormData.ID = ''global'', Values = Some [''type'' \<mapsto> Some ''quick'']\<rparr>"

definition navAtA :: Navigator where
  "navAtA = \<lparr>Navigator.forms = formsABC, currentIdx = 0, history = []\<rparr>"

definition navAtC :: Navigator where
  "navAtC = \<lparr>Navigator.forms = formsABC, currentIdx = 2, history = [0]\<rparr>"

text \<open>A completion handler that writes nothing and returns the error \<open>e\<close>.\<close>

definition failingHandler :: "error \<Rightarrow> CompletionHandler" where
  "failingHandler e cur glob = (Some e, storeOf cur, cur, glob)"

text \<open>A completion handler that stores \<open>a = 1\<close> in the global store.\<close>

definition savingHandler :: CompletionHandler where
  "savingHandler cur glob =
     (None, storeOf cur, cur, writeStore glob ((storeOf glob)(''a'' \<mapsto> Some ''1'')))"

text \<open>
  A completion handler that sets \<^verbatim>\<open>global.Values = nil\<close> and returns an error.
\<close>

definition nillingHandler :: CompletionHandler where
  "nillingHandler cur glob = (Some (ErrorString ''invalid''), storeOf cur, cur, glob\<lparr>Values := None\<rparr>)"

definition plainGenerator :: FormGenerator where
  "plainGenerator cur glob = Some \<lparr>State = HuhStateNormal\<rparr>"

text \<open>A navigation handler that ends the flow when it is handed the data of step A.\<close>

definition stopAfterA :: NavigationHandler where
  "stopAfterA cur = (if FormData.ID cur = ''A'' then -2 else -1)"

text \<open>A navigation handler that always ends the flow.\<close>

definition stopAlways :: NavigationHandler where
  "stopAlways cur = -2"

definition formB :: Form where
  "formB = WithGenerator (NewForm ''B'' ''Form B'') plainGenerator"

definition formsFailing :: "error \<Rightarrow> Form list" where
  "formsFailing e =
     [WithOnComplete (WithGenerator (NewForm ''A'' ''Form A'') plainGenerator) (failingHandler e),
      formB]"

definition formsStopAfterA :: "Form list" where
  "formsStopAfterA =
     [WithNavigation (WithGenerator (NewForm ''A'' ''Form A'') plainGenerator) stopAfterA, formB]"

definition formsStopAlways :: "Form list" where
  "formsStopAlways =
     [WithNavigation (WithGenerator (NewForm ''A'' ''Form A'') plainGenerator) stopAlways,
      WithSkipCondition formB skipB]"

text \<open>
  A controller over the forms \<open>fs\<close> whose first form has just been filled in: the cache holds
  \<open>a = 1\<close> for step A and the global store holds \<open>type = quick\<close>.
\<close>

definition atFirstForm :: "Form list \<Rightarrow> Bobarista" where
  "atFirstForm fs =
     \<lparr>Bobarista.config =
        \<lparr>Title = ''Flow'', MaxWidth = 180, DisplayKeys = [], ColorScheme = ''default'',
         Debug = False, OnInit = None, OnComplete = None\<rparr>,
      forms = fs,
      navigator = \<lparr>Navigator.forms = fs, currentIdx = 0, history = []\<rparr>,
      globalData = Some globalQuick,
      currentForm = Some \<lparr>State = HuhStateCompleted\<rparr>,
      state = StateActive,
      errors = [],
      formValues = Some [''A'' \<mapsto> [''a'' \<mapsto> Some ''1'']]\<rparr>"

text \<open>A completed session whose finish callback fails, and a widget that is still being filled in.\<close>

definition failingFinish :: "FormData \<Rightarrow> error option \<times> FormValues" where
  "failingFinish glob = (Some (ErrorString ''disk full''), storeOf glob)"

definition completedSession :: Bobarista where
  "completedSession =
     (atFirstForm formsStopAlways)
       \<lparr>Bobarista.config :=
          \<lparr>Title = ''Flow'', MaxWidth = 180, DisplayKeys = [], ColorScheme = ''default'',
           Debug = False, OnInit = None, OnComplete = Some failingFinish\<rparr>,
        state := StateCompleted\<rparr>"

definition typing :: HuhForm where
  "typing = \<lparr>State = HuhStateNormal\<rparr>"

definition filledIn :: HuhForm where
  "filledIn = \<lparr>State = HuhStateCompleted\<rparr>"

text \<open>A flow of the forms A and B as the builder makes it.\<close>

definition builderAB :: BobaBuilder where
  "builderAB =
     AddForm (AddForm (New ''Flow'') (WithGenerator (NewForm ''A'' ''Form A'') plainGenerator)) formB"

text \<open>The same flow with the saving handler, and a flow whose only form has the nilling handler.\<close>

definition builderSaving :: BobaBuilder where
  "builderSaving =
     AddForm (AddForm (New ''Flow'')
                (WithOnComplete (WithGenerator (NewForm ''A'' ''Form A'') plainGenerator)
                   savingHandler)) formB"

definition builderNilling :: BobaBuilder where
  "builderNilling =
     AddForm (New ''Flow'')
       (WithOnComplete (WithGenerator (NewForm ''A'' ''Form A'') plainGenerator) nillingHandler)"

text \<open>A controller with form A current and nothing cached for it.\<close>

definition uncachedAtA :: Bobarista where
  "uncachedAtA =
     (Build builderAB)\<lparr>navigator := snd (MoveToFirstValid (NewNavigator (BobaBuilder.forms builderAB))
                                           globalQuick)\<rparr>"


section \<open>Properties of the value store\<close>

lemma Merge_nil: "FormValues_Merge a None = a"
  by (simp add: FormValues_Merge_def)

lemma Merge_apply:
  "FormValues_Merge a (Some b) k = (case b k of None \<Rightarrow> a k | Some v \<Rightarrow> Some v)"
  by (simp add: FormValues_Merge_def split: option.splits)

lemma Merge_eq_map_add: "FormValues_Merge a (Some b) = a ++ b"
  by (rule ext) (simp add: Merge_apply map_add_def)

text \<open>
  C7. After \<open>A.Merge(B)\<close> every key of \<open>B\<close> maps in \<open>A\<close> to \<open>B\<close>'s entry, nil or not
  (so a key present in both takes \<open>B\<close>'s value); a key present only in \<open>A\<close> keeps its entry;
  and merging a nil or an empty \<open>B\<close> leaves \<open>A\<close> as it was.
\<close>

theorem Merge_right_biased:
  "(\<forall>k v. b k = Some v \<longrightarrow> FormValues_Merge a (Some b) k = Some v)
   \<and> (\<forall>k. b k = None \<longrightarrow> FormValues_Merge a (Some b) k = a k)
   \<and> FormValues_Merge a None = a
   \<and> FormValues_Merge a (Some Map.empty) = a"
proof (intro conjI allI impI)
  fix k v assume "b k = Some v"
  then show "FormValues_Merge a (Some b) k = Some v" by (simp add: Merge_apply)
next
  fix k assume "b k = None"
  then show "FormValues_Merge a (Some b) k = a k" by (simp add: Merge_apply)
next
  show "FormValues_Merge a None = a" by (rule Merge_nil)
next
  show "FormValues_Merge a (Some Map.empty) = a" by (simp add: Merge_eq_map_add)
qed

theorem Merge_right_biased_witness:
  "FormValues_Merge [''k'' \<mapsto> Some ''old'', ''a'' \<mapsto> Some ''1'', ''n'' \<mapsto> Some ''x'']
                    (Some [''k'' \<mapsto> Some ''new'', ''n'' \<mapsto> None]) ''k'' = Some (Some ''new'')
   \<and> FormValues_Merge [''k'' \<mapsto> Some ''old'', ''a'' \<mapsto> Some ''1'', ''n'' \<mapsto> Some ''x'']
                    (Some [''k'' \<mapsto> Some ''new'', ''n'' \<mapsto> None]) ''n'' = Some None
   \<and> FormValues_Merge [''k'' \<mapsto> Some ''old'', ''a'' \<mapsto> Some ''1'', ''n'' \<mapsto> Some ''x'']
                    (Some [''k'' \<mapsto> Some ''new'', ''n'' \<mapsto> None]) ''a'' = Some (Some ''1'')"
  using Merge_right_biased
    [of "[''k'' \<mapsto> Some ''new'', ''n'' \<mapsto> None]"
        "[''k'' \<mapsto> Some ''old'', ''a'' \<mapsto> Some ''1'', ''n'' \<mapsto> Some ''x'']"]
  by simp

section \<open>Properties of the navigator\<close>

lemma skipped_iff:
  "skippedWithEmptyLocal form g =
     (\<not> (case ShouldSkip form of None \<Rightarrow> True
          | Some p \<Rightarrow> \<not> p \<lparr>FormData.ID = Form.ID form, Values = NewFormValues\<rparr> g))"
  by (simp add: skippedWithEmptyLocal_def NewFormValues_def split: option.splits)

lemma findNext_step_take:
  "i < length (Navigator.forms n) \<Longrightarrow> \<not> skippedWithEmptyLocal (Navigator.forms n ! i) g \<Longrightarrow>
   findNextValidForm n i g = Inr (int i)"
  by (subst findNextValidForm.simps) (simp add: Let_def skipped_iff)

lemma findNext_step_skip:
  "i < length (Navigator.forms n) \<Longrightarrow> skippedWithEmptyLocal (Navigator.forms n ! i) g \<Longrightarrow>
   findNextValidForm n i g = findNextValidForm n (Suc i) g"
  by (subst findNextValidForm.simps) (simp add: Let_def skipped_iff)

lemma findNext_step_end:
  "\<not> i < length (Navigator.forms n) \<Longrightarrow> findNextValidForm n i g = Inr (-1)"
  by (subst findNextValidForm.simps) simp

lemma findNext_first:
  "\<exists>r. findNextValidForm n i g = Inr r \<and>
     ((r = -1 \<and> (\<forall>j. i \<le> j \<and> j < length (Navigator.forms n)
                      \<longrightarrow> skippedWithEmptyLocal (Navigator.forms n ! j) g))
      \<or> (int i \<le> r \<and> r < int (length (Navigator.forms n))
         \<and> \<not> skippedWithEmptyLocal (Navigator.forms n ! nat r) g
         \<and> (\<forall>j. i \<le> j \<and> int j < r \<longrightarrow> skippedWithEmptyLocal (Navigator.forms n ! j) g)))"
proof (induction "length (Navigator.forms n) - i" arbitrary: i)
  case 0
  then have "\<not> i < length (Navigator.forms n)" by simp
  then show ?case by (auto simp add: findNext_step_end)
next
  case (Suc d)
  then have lt: "i < length (Navigator.forms n)" by simp
  show ?case
  proof (cases "skippedWithEmptyLocal (Navigator.forms n ! i) g")
    case False
    with lt show ?thesis by (auto simp add: findNext_step_take)
  next
    case True
    from Suc have "d = length (Navigator.forms n) - Suc i" by simp
    from Suc.hyps(1)[OF this] obtain r where
      r: "findNextValidForm n (Suc i) g = Inr r"
      and alt: "(r = -1 \<and> (\<forall>j. Suc i \<le> j \<and> j < length (Navigator.forms n)
                      \<longrightarrow> skippedWithEmptyLocal (Navigator.forms n ! j) g))
      \<or> (int (Suc i) \<le> r \<and> r < int (length (Navigator.forms n))
         \<and> \<not> skippedWithEmptyLocal (Navigator.forms n ! nat r) g
         \<and> (\<forall>j. Suc i \<le> j \<and> int j < r \<longrightarrow> skippedWithEmptyLocal (Navigator.forms n ! j) g))"
      by blast
    have eq: "findNextValidForm n i g = Inr r"
      using lt True r by (simp add: findNext_step_skip)
    have ext: "\<And>j. i \<le> j \<Longrightarrow> j = i \<or> Suc i \<le> j" by arith
    from alt show ?thesis
    proof
      assume a: "r = -1 \<and> (\<forall>j. Suc i \<le> j \<and> j < length (Navigator.forms n)
                      \<longrightarrow> skippedWithEmptyLocal (Navigator.forms n ! j) g)"
      then have "\<forall>j. i \<le> j \<and> j < length (Navigator.forms n)
                      \<longrightarrow> skippedWithEmptyLocal (Navigator.forms n ! j) g"
        using True ext by blast
      with a eq show ?thesis by blast
    next
      assume b: "int (Suc i) \<le> r \<and> r < int (length (Navigator.forms n))
         \<and> \<not> skippedWithEmptyLocal (Navigator.forms n ! nat r) g
         \<and> (\<forall>j. Suc i \<le> j \<and> int j < r \<longrightarrow> skippedWithEmptyLocal (Navigator.forms n ! j) g)"
      then have "\<forall>j. i \<le> j \<and> int j < r \<longrightarrow> skippedWithEmptyLocal (Navigator.forms n ! j) g"
        using True ext by blast
      moreover from b have "int i \<le> r" by simp
      ultimately show ?thesis using b eq by blast
    qed
  qed
qed

lemma findNext_range:
  "\<exists>r. findNextValidForm n i g = Inr r \<and>
       (r = -1 \<or> (int i \<le> r \<and> r < int (length (Navigator.forms n))))"
  using findNext_first[of n i g] by blast

lemma Next_default:
  "(case Current n of None \<Rightarrow> True | Some c \<Rightarrow> NextForm c = None) \<Longrightarrow>
   Next n g = findNextValidForm n (searchStart n) g"
  by (simp add: Next_def searchStart_def split: option.splits)

text \<open>
  C1. When the current form has no navigation handler, or no form is current, \<open>Next\<close>
  returns without error the result of the default search from \<open>searchStart\<close> (after the
  current form, or 0): the first index from there whose skip condition is absent or false on
  an empty local snapshot and the global data handed to \<open>Next\<close>, every index before it
  being skipped; or \<open>-1\<close> when every remaining form is skipped. In particular the result is
  \<open>-1\<close> when no form remains.
\<close>

theorem Next_default_search:
  assumes "case Current n of None \<Rightarrow> True | Some c \<Rightarrow> NextForm c = None"
  shows "(\<exists>r. Next n g = Inr r \<and>
     ((r = -1 \<and> (\<forall>j. searchStart n \<le> j \<and> j < length (Navigator.forms n)
                      \<longrightarrow> skippedWithEmptyLocal (Navigator.forms n ! j) g))
      \<or> (int (searchStart n) \<le> r \<and> r < int (length (Navigator.forms n))
         \<and> \<not> skippedWithEmptyLocal (Navigator.forms n ! nat r) g
         \<and> (\<forall>j. searchStart n \<le> j \<and> int j < r
                \<longrightarrow> skippedWithEmptyLocal (Navigator.forms n ! j) g))))
   \<and> (length (Navigator.forms n) \<le> searchStart n \<longrightarrow> Next n g = Inr (-1))"
proof
  show "\<exists>r. Next n g = Inr r \<and>
     ((r = -1 \<and> (\<forall>j. searchStart n \<le> j \<and> j < length (Navigator.forms n)
                      \<longrightarrow> skippedWithEmptyLocal (Navigator.forms n ! j) g))
      \<or> (int (searchStart n) \<le> r \<and> r < int (length (Navigator.forms n))
         \<and> \<not> skippedWithEmptyLocal (Navigator.forms n ! nat r) g
         \<and> (\<forall>j. searchStart n \<le> j \<and> int j < r
                \<longrightarrow> skippedWithEmptyLocal (Navigator.forms n ! j) g)))"
    using findNext_first[of n "searchStart n" g] Next_default[OF assms, of g] by simp
  show "length (Navigator.forms n) \<le> searchStart n \<longrightarrow> Next n g = Inr (-1)"
    using Next_default[OF assms, of g] by (simp add: findNext_step_end)
qed

theorem Next_default_search_witness:
  "(case Current navAtA of None \<Rightarrow> True | Some c \<Rightarrow> NextForm c = None)
   \<and> (\<exists>r. Next navAtA globalQuick = Inr r \<and> r = 2
          \<and> \<not> skippedWithEmptyLocal (Navigator.forms navAtA ! nat r) globalQuick
          \<and> (\<forall>j. searchStart navAtA \<le> j \<and> int j < r
                 \<longrightarrow> skippedWithEmptyLocal (Navigator.forms navAtA ! j) globalQuick))"
proof -
  have h: "case Current navAtA of None \<Rightarrow> True | Some c \<Rightarrow> NextForm c = None"
    by (simp add: navAtA_def formsABC_def Current_def NewForm_def)
  have e: "Next navAtA globalQuick = Inr 2"
    by (simp add: Next_def navAtA_def formsABC_def Current_def NewForm_def
        WithSkipCondition_def findNextValidForm.simps skipB_def NewFormValues_def globalQuick_def)
  from Next_default_search[OF h, of globalQuick] e h show ?thesis by auto
qed

text \<open>
  C4. \<open>MoveTo\<close> with an index outside \<open>[0, N)\<close> returns \<open>ErrInvalidFormIndex\<close> and leaves
  the navigator as it was; with an index inside it returns no error, appends the previous
  current index to the history when that index was not negative, and makes the index
  current.
\<close>

theorem MoveTo_checks_index:
  "(index < 0 \<or> int (length (Navigator.forms n)) \<le> index
      \<longrightarrow> MoveTo n index = (Some ErrInvalidFormIndex, n))
   \<and> (0 \<le> index \<and> index < int (length (Navigator.forms n))
      \<longrightarrow> MoveTo n index =
            (None, n\<lparr>history := (if 0 \<le> currentIdx n then history n @ [currentIdx n]
                                   else history n),
                      currentIdx := index\<rparr>))"
  by (simp add: MoveTo_def Let_def)

theorem MoveTo_checks_index_witness:
  "MoveTo navAtA 3 = (Some ErrInvalidFormIndex, navAtA)
   \<and> MoveTo navAtA (-1) = (Some ErrInvalidFormIndex, navAtA)
   \<and> MoveTo navAtA 2 = (None, navAtC)
   \<and> MoveTo (NewNavigator formsABC) 0 = (None, navAtA)"
  using MoveTo_checks_index[of 3 navAtA] MoveTo_checks_index[of "-1" navAtA]
    MoveTo_checks_index[of 2 navAtA] MoveTo_checks_index[of 0 "NewNavigator formsABC"]
  by (simp add: navAtA_def navAtC_def formsABC_def NewNavigator_def)

lemma navInv_MoveTo: "navInv n \<Longrightarrow> navInv (snd (MoveTo n i))"
  by (auto simp: navInv_def MoveTo_def Let_def)

lemma navInv_MoveToFirstValid: "navInv n \<Longrightarrow> navInv (snd (MoveToFirstValid n g))"
  using findNext_range[of n 0 g]
  by (auto simp: navInv_def MoveToFirstValid_def)

lemma navInv_Back: "navInv n \<Longrightarrow> navInv (snd (Back n))"
  by (auto simp: navInv_def Back_def list_all_iff dest: in_set_takeD)

lemma navInv_Reset: "navInv n \<Longrightarrow> navInv (Reset n)"
  by (auto simp: navInv_def Reset_def)

lemma navInv_New: "navInv (NewNavigator fs)"
  by (simp add: navInv_def NewNavigator_def)

lemma forms_MoveTo: "Navigator.forms (snd (MoveTo n i)) = Navigator.forms n"
  by (simp add: MoveTo_def Let_def)

lemma forms_MoveToFirstValid: "Navigator.forms (snd (MoveToFirstValid n g)) = Navigator.forms n"
  by (simp add: MoveToFirstValid_def split: sum.splits)

lemma forms_applyNavOp: "Navigator.forms (applyNavOp n op) = Navigator.forms n"
  by (cases op) (simp_all add: forms_MoveTo forms_MoveToFirstValid Back_def Reset_def)

lemma navInv_applyNavOp: "navInv n \<Longrightarrow> navInv (applyNavOp n op)"
  by (cases op) (simp_all add: navInv_MoveTo navInv_MoveToFirstValid navInv_Back navInv_Reset)

lemma runNavOps_inv:
  "navInv n \<Longrightarrow> navInv (runNavOps n ops) \<and> Navigator.forms (runNavOps n ops) = Navigator.forms n"
  unfolding runNavOps_def
proof (induction ops arbitrary: n)
  case Nil
  then show ?case by simp
next
  case (Cons op ops)
  from Cons.prems have "navInv (applyNavOp n op)" by (rule navInv_applyNavOp)
  from Cons.IH[OF this] show ?case by (simp add: forms_applyNavOp)
qed

text \<open>
  C5. Whatever sequence of \<open>MoveTo\<close>, \<open>MoveToFirstValid\<close>, \<open>Back\<close> and \<open>Reset\<close> is applied to
  a navigator made by \<open>NewNavigator\<close> over \<open>N\<close> forms, the current index is \<open>-1\<close> or within
  \<open>[0, N)\<close>, and every entry of the history is within \<open>[0, N)\<close>.
\<close>

theorem navigator_index_invariant:
  "(currentIdx (runNavOps (NewNavigator fs) ops) = -1
    \<or> (0 \<le> currentIdx (runNavOps (NewNavigator fs) ops)
       \<and> currentIdx (runNavOps (NewNavigator fs) ops) < int (length fs)))
   \<and> (\<forall>h \<in> set (history (runNavOps (NewNavigator fs) ops)). 0 \<le> h \<and> h < int (length fs))"
proof -
  have "navInv (runNavOps (NewNavigator fs) ops)"
    and "Navigator.forms (runNavOps (NewNavigator fs) ops) = fs"
    using runNavOps_inv[OF navInv_New, of fs ops] by (simp_all add: NewNavigator_def)
  then show ?thesis by (simp add: navInv_def list_all_iff)
qed

theorem navigator_index_invariant_witness:
  "currentIdx (runNavOps (NewNavigator formsABC)
      [OpMoveToFirstValid globalQuick, OpMoveTo 2, OpMoveTo 7, OpMoveTo 1, OpBack]) = 2
   \<and> history (runNavOps (NewNavigator formsABC)
      [OpMoveToFirstValid globalQuick, OpMoveTo 2, OpMoveTo 7, OpMoveTo 1, OpBack]) = [0]
   \<and> list_all (\<lambda>h. 0 \<le> h \<and> h < int (length formsABC))
        (history (runNavOps (NewNavigator formsABC)
          [OpMoveToFirstValid globalQuick, OpMoveTo 2, OpMoveTo 7, OpMoveTo 1, OpBack]))"
proof -
  have e: "runNavOps (NewNavigator formsABC)
      [OpMoveToFirstValid globalQuick, OpMoveTo 2, OpMoveTo 7, OpMoveTo 1, OpBack] = navAtC"
    by (simp add: runNavOps_def NewNavigator_def formsABC_def MoveToFirstValid_def MoveTo_def
        Back_def findNextValidForm.simps NewForm_def navAtC_def Let_def)
  from navigator_index_invariant[of formsABC
      "[OpMoveToFirstValid globalQuick, OpMoveTo 2, OpMoveTo 7, OpMoveTo 1, OpBack]"] e
  show ?thesis by (simp add: navAtC_def list_all_iff)
qed

section \<open>Properties of step completion\<close>

lemma debugPanics_update [simp]:
  "debugPanics (f\<lparr>formValues := fv\<rparr>) = debugPanics f"
  "debugPanics (f\<lparr>navigator := n\<rparr>) = debugPanics f"
  "debugPanics (f\<lparr>currentForm := w\<rparr>) = debugPanics f"
  "debugPanics (f\<lparr>state := st\<rparr>) = debugPanics f"
  "debugPanics (f\<lparr>errors := es\<rparr>) = debugPanics f"
  by (simp_all add: debugPanics_def)

lemma debugPanics_replaceSkipConditions [simp]:
  "debugPanics (replaceSkipConditions s f) = debugPanics f"
  by (simp add: debugPanics_def replaceSkipConditions_def)

lemma handleFormCompletion_error:
  assumes "Current (navigator f) = Some c"
      and "globalData f = Some g"
      and "callOnComplete c (currentStepData f c) g = (Some err, sv, cd, g1)"
      and "\<not> debugPanics f"
  shows "handleFormCompletion f =
           Some (Return (addError (f\<lparr>globalData := Some g1, formValues := writeBack f c sv\<rparr>)
                           (Form.ID c) err) CmdNil)"
  using assms by (simp add: handleFormCompletion_def)

lemma callOnComplete_handler:
  "Form.OnComplete c = Some h \<Longrightarrow> callOnComplete c cd g = h cd g"
  by (simp add: callOnComplete_def)

text \<open>
  C3, as the code has it. When the completion handler of the current step returns an error
  (the global data being set, and its store too when debug logging reads it),
  \<open>handleFormCompletion\<close> returns with the session in the Error state and exactly one
  entry appended to the error list: the handler's error itself when that already is a
  \<open>CupSleeveError\<close>, otherwise a \<open>CupSleeveError\<close> of the step's ID and the handler's error.
  The navigator and the widget are untouched and nothing is merged: the global data is as
  the handler left it, and unchanged when the handler left it as it was.
\<close>

theorem OnComplete_error_halts:
  assumes "Current (navigator f) = Some c"
      and "globalData f = Some g"
      and "Form.OnComplete c = Some h"
      and "h (currentStepData f c) g = (Some err, sv, cd, g1)"
      and "Debug (Bobarista.config f) \<longrightarrow> Values g \<noteq> None"
  shows "\<exists>f'. handleFormCompletion f = Some (Return f' CmdNil)
           \<and> state f' = StateError
           \<and> errors f' = errors f @ [case err of CupSleeveError i e \<Rightarrow> err
                                       | _ \<Rightarrow> CupSleeveError (Form.ID c) err]
           \<and> navigator f' = navigator f
           \<and> currentForm f' = currentForm f
           \<and> globalData f' = Some g1
           \<and> (g1 = g \<longrightarrow> globalData f' = globalData f)"
proof -
  have nd: "\<not> debugPanics f"
    using assms(2,5) by (simp add: debugPanics_def)
  have oc: "callOnComplete c (currentStepData f c) g = (Some err, sv, cd, g1)"
    using callOnComplete_handler[OF assms(3)] assms(4) by simp
  have "handleFormCompletion f =
          Some (Return (addError (f\<lparr>globalData := Some g1, formValues := writeBack f c sv\<rparr>)
                           (Form.ID c) err) CmdNil)"
    using handleFormCompletion_error[OF assms(1,2) oc nd] .
  then show ?thesis
    using assms(2) by (simp add: addError_def NewCupSleeveError_def cong: error.case_cong)
qed

theorem OnComplete_error_halts_witness:
  "map_option state (returned (handleFormCompletion (atFirstForm (formsFailing (ErrorString ''invalid'')))))
     = Some StateError
   \<and> map_option errors (returned (handleFormCompletion (atFirstForm (formsFailing (ErrorString ''invalid'')))))
     = Some [CupSleeveError ''A'' (ErrorString ''invalid'')]
   \<and> map_option globalData (returned (handleFormCompletion (atFirstForm (formsFailing (ErrorString ''invalid'')))))
     = Some (Some globalQuick)
   \<and> map_option navigator (returned (handleFormCompletion (atFirstForm (formsFailing (ErrorString ''invalid'')))))
     = Some (navigator (atFirstForm (formsFailing (ErrorString ''invalid''))))"
proof -
  let ?f = "atFirstForm (formsFailing (ErrorString ''invalid''))"
  let ?c = "WithOnComplete (WithGenerator (NewForm ''A'' ''Form A'') plainGenerator)
              (failingHandler (ErrorString ''invalid''))"
  have a1: "Current (navigator ?f) = Some ?c"
    by (simp add: atFirstForm_def formsFailing_def Current_def)
  have a2: "globalData ?f = Some globalQuick"
    by (simp add: atFirstForm_def)
  have a3: "Form.OnComplete ?c = Some (failingHandler (ErrorString ''invalid''))"
    by (simp add: WithOnComplete_def)
  have a4: "failingHandler (ErrorString ''invalid'') (currentStepData ?f ?c) globalQuick
              = (Some (ErrorString ''invalid''), storeOf (currentStepData ?f ?c),
                 currentStepData ?f ?c, globalQuick)"
    by (simp add: failingHandler_def)
  have a6: "Form.ID ?c = ''A''"
    by (simp add: WithOnComplete_def WithGenerator_def NewForm_def)
  have a7: "errors ?f = []"
    by (simp add: atFirstForm_def)
  have a8: "Debug (Bobarista.config ?f) \<longrightarrow> Values globalQuick \<noteq> None"
    by (simp add: atFirstForm_def)
  from OnComplete_error_halts[OF a1 a2 a3 a4 a8] a2 a6 a7
  show ?thesis by (auto simp add: returned_def)
qed

text \<open>
  C3 as stated fails when the handler's error already is a \<open>CupSleeveError\<close> of
  another form: step A's handler returns \<open>CupSleeveError ''B'' (ErrorString ''invalid'')\<close>,
  and the entry appended carries \<open>B\<close>, not the ID of step A.
\<close>

theorem OnComplete_error_not_rewrapped:
  "map_option errors
     (returned (handleFormCompletion
        (atFirstForm (formsFailing (CupSleeveError ''B'' (ErrorString ''invalid''))))))
     = Some [CupSleeveError ''B'' (ErrorString ''invalid'')]
   \<and> map_option errors
     (returned (handleFormCompletion
        (atFirstForm (formsFailing (CupSleeveError ''B'' (ErrorString ''invalid''))))))
     \<noteq> Some [CupSleeveError ''A'' (CupSleeveError ''B'' (ErrorString ''invalid''))]"
  by (simp add: handleFormCompletion_def atFirstForm_def formsFailing_def Current_def
      callOnComplete_def WithOnComplete_def WithGenerator_def NewForm_def failingHandler_def
      currentStepData_def lookupFormValues_def addError_def returned_def debugPanics_def
      storeOf_def)











text \<open>
  C2, where the code departs from it. \<open>Next\<close> hands the navigation handler its own argument,
  and the controller calls \<open>Next\<close> with the global data: a handler that ends the flow when it
  sees step A's data is handed the data with ID \<open>global\<close>, answers \<open>-1\<close>, and the flow goes
  on to form B instead of ending. The other parts of the claim hold: \<open>-1\<close> falls through to
  the default search from \<open>currentIdx+1\<close> and any other value is returned as it is.
\<close>

theorem NextForm_is_handed_global_data:
  "stopAfterA (currentStepData (atFirstForm formsStopAfterA) (formsStopAfterA ! 0)) = -2
   \<and> Next (navigator (atFirstForm formsStopAfterA)) globalQuick = Inr 1
   \<and> map_option state (returned (handleFormCompletion (atFirstForm formsStopAfterA)))
       = Some StateActive
   \<and> map_option (\<lambda>f. currentIdx (navigator f))
       (returned (handleFormCompletion (atFirstForm formsStopAfterA))) = Some 1"
proof -
  have e1: "stopAfterA (currentStepData (atFirstForm formsStopAfterA) (formsStopAfterA ! 0)) = -2"
    by (simp add: stopAfterA_def currentStepData_def formsStopAfterA_def WithNavigation_def
        WithGenerator_def NewForm_def)
  have e2: "Next (navigator (atFirstForm formsStopAfterA)) globalQuick = Inr 1"
    by (simp add: Next_def atFirstForm_def formsStopAfterA_def Current_def WithNavigation_def
        WithGenerator_def NewForm_def stopAfterA_def globalQuick_def formB_def
        findNextValidForm.simps)
  have e3: "returned (handleFormCompletion (atFirstForm formsStopAfterA)) =
     Some ((atFirstForm formsStopAfterA)
        \<lparr>globalData := Some \<lparr>FormData.ID = ''global'',
             Values = Some (FormValues_Merge [''type'' \<mapsto> Some ''quick''] (Some [''a'' \<mapsto> Some ''1'']))\<rparr>,
         navigator := \<lparr>Navigator.forms = formsStopAfterA, currentIdx = 1, history = [0]\<rparr>,
         formValues := Some [''A'' \<mapsto> [''a'' \<mapsto> Some ''1''], ''B'' \<mapsto> Map.empty],
         currentForm := Some \<lparr>State = HuhStateNormal\<rparr>\<rparr>)"
    apply (simp add: handleFormCompletion_def atFirstForm_def Current_def formsStopAfterA_def
        WithNavigation_def WithGenerator_def NewForm_def callOnComplete_def currentStepData_def
        lookupFormValues_def globalQuick_def Next_def stopAfterA_def formB_def
        findNextValidForm.simps MoveTo_def writeBack_def Let_def debugPanics_def storeOf_def)
    apply (subst initCurrentForm.simps)
    apply (simp add: Current_def generateCurrentForm_def plainGenerator_def returned_def Let_def
        debugPanics_def)
    done
  from e1 e2 e3 show ?thesis by (simp add: atFirstForm_def)
qed

section \<open>Properties of the session state\<close>

lemma state_addError: "state (addError f i e) = StateError"
  by (simp add: addError_def)

lemma globalData_addError: "globalData (addError f i e) = globalData f"
  by (simp add: addError_def)

lemma generateCurrentForm_keeps:
  "generateCurrentForm f c cv = Return f' cmd \<Longrightarrow>
   globalData f' = globalData f \<and> navigator f' = navigator f
   \<and> (state f' = state f \<or> state f' = StateError)"
  by (auto simp add: generateCurrentForm_def addError_def split: option.splits)

lemmas initCurrentForm_induct =
  initCurrentForm.raw_induct[rotated 1, consumes 1, case_names step]

lemma initCurrentForm_keeps:
  "initCurrentForm f = Some r \<Longrightarrow>
   (\<forall>f' cmd. r = Return f' cmd \<longrightarrow>
      globalData f' = globalData f
      \<and> Navigator.forms (navigator f') = Navigator.forms (navigator f)
      \<and> (state f' = state f \<or> state f' = StateCompleted \<or> state f' = StateError))"
proof (induct rule: initCurrentForm_induct)
  case (step rec f r)
  note IH = step(1) and body = step(2)
  show ?case
  proof (cases "Current (navigator f)")
    case None
    with body show ?thesis by auto
  next
    case (Some c)
    let ?cache0 = "case formValues f of None \<Rightarrow> Map.empty | Some c \<Rightarrow> c"
    let ?cache = "case ?cache0 (Form.ID c) of None \<Rightarrow> ?cache0(Form.ID c \<mapsto> Map.empty)
                  | Some stored \<Rightarrow> ?cache0"
    let ?f1 = "f\<lparr>formValues := Some ?cache\<rparr>"
    let ?cv = "case ?cache (Form.ID c) of Some stored \<Rightarrow> stored | None \<Rightarrow> Map.empty"
    show ?thesis
    proof (cases "debugPanics f")
      case True
      with Some body show ?thesis by (simp add: Let_def)
    next
      case nd: False
      show ?thesis
      proof (cases "ShouldSkip c")
        case None
        with Some body nd have "r = generateCurrentForm ?f1 c ?cv"
          by (simp add: Let_def)
        then show ?thesis using generateCurrentForm_keeps[of ?f1 c ?cv] by auto
      next
        case (Some p)
        note skip = this
        show ?thesis
        proof (cases "globalData f")
          case None
          with skip \<open>Current (navigator f) = Some c\<close> body nd show ?thesis
            by (auto simp add: Let_def)
        next
          case (Some g)
          let ?cd = "\<lparr>FormData.ID = Form.ID c, Values = Some ?cv\<rparr>"
          show ?thesis
          proof (cases "p ?cd g")
            case False
            with Some skip \<open>Current (navigator f) = Some c\<close> body nd
            have "r = generateCurrentForm ?f1 c ?cv"
              by (simp add: Let_def)
            then show ?thesis using generateCurrentForm_keeps[of ?f1 c ?cv] by auto
          next
            case True
            show ?thesis
            proof (cases "Next (navigator f) g")
              case (Inl err)
              with True Some skip \<open>Current (navigator f) = Some c\<close> body nd
              show ?thesis by (auto simp add: Let_def addError_def)
            next
              case (Inr nextIndex)
              show ?thesis
              proof (cases "nextIndex = -1 \<or> nextIndex = -2")
                case True
                with Inr \<open>p ?cd g\<close> Some skip \<open>Current (navigator f) = Some c\<close> body nd
                show ?thesis by (auto simp add: Let_def)
              next
                case False
                obtain e n' where mv: "MoveTo (navigator f) nextIndex = (e, n')"
                  by (cases "MoveTo (navigator f) nextIndex")
                have fm: "Navigator.forms n' = Navigator.forms (navigator f)"
                  using forms_MoveTo[of "navigator f" nextIndex] mv by simp
                show ?thesis
                proof (cases e)
                  case (Some err)
                  with mv False Inr \<open>p ?cd g\<close> \<open>globalData f = Some g\<close> skip
                    \<open>Current (navigator f) = Some c\<close> body nd fm
                  show ?thesis by (auto simp add: Let_def addError_def)
                next
                  case None
                  with mv False Inr \<open>p ?cd g\<close> \<open>globalData f = Some g\<close> skip
                    \<open>Current (navigator f) = Some c\<close> body nd
                  have "rec (?f1\<lparr>navigator := n'\<rparr>) = Some r"
                    by (simp add: Let_def)
                  from IH[OF this] fm show ?thesis by simp
                qed
              qed
            qed
          qed
        qed
      qed
    qed
  qed
qed

lemma writeStore_keeps: "Values g \<noteq> None \<Longrightarrow> Values (writeStore g v) \<noteq> None"
  by (auto simp add: writeStore_def)

lemma Current_in_forms: "Current n = Some c \<Longrightarrow> c \<in> set (Navigator.forms n)"
  by (auto simp add: Current_def split: if_splits)

lemma callOnComplete_keeps:
  assumes "keepsGlobalStore fs" and "c \<in> set fs"
      and "callOnComplete c cd g = (e, sv, cd', g1)" and "Values g \<noteq> None"
  shows "Values g1 \<noteq> None"
proof (cases "Form.OnComplete c")
  case None
  with assms(3,4) show ?thesis by (simp add: callOnComplete_def)
next
  case (Some h)
  with assms(3) have "h cd g = (e, sv, cd', g1)" by (simp add: callOnComplete_def)
  then have "snd (snd (snd (h cd g))) = g1" by simp
  with assms(1,2,4) Some show ?thesis unfolding keepsGlobalStore_def by metis
qed

lemma stepKeeps_refl: "stepKeeps f f"
  by (simp add: stepKeeps_def)

lemma stepKeeps_trans: "stepKeeps f f1 \<Longrightarrow> stepKeeps f1 f' \<Longrightarrow> stepKeeps f f'"
  by (auto simp add: stepKeeps_def)

lemma handleFormCompletion_keeps:
  assumes "handleFormCompletion f = Some (Return f' cmd)"
  shows "stepKeeps f f'"
proof (cases "Current (navigator f)")
  case None
  with assms show ?thesis by (auto simp add: handleFormCompletion_def globalInv_def stepKeeps_def)
next
  case (Some c)
  note cur = this
  show ?thesis
  proof (cases "debugPanics f")
    case True
    with Some assms show ?thesis by (simp add: handleFormCompletion_def)
  next
    case nd: False
    show ?thesis
    proof (cases "globalData f")
      case None
      with Some assms nd show ?thesis by (simp add: handleFormCompletion_def)
    next
      case (Some g)
      obtain e sv cd g1 where oc: "callOnComplete c (currentStepData f c) g = (e, sv, cd, g1)"
        by (cases "callOnComplete c (currentStepData f c) g")
      have g1: "globalInv f \<and> keepsGlobalStore (Navigator.forms (navigator f))
                  \<longrightarrow> Values g1 \<noteq> None"
        using callOnComplete_keeps[OF _ Current_in_forms[OF cur] oc] Some
        by (auto simp add: globalInv_def)
      show ?thesis
      proof (cases e)
        case (Some err)
        with oc \<open>globalData f = Some g\<close> cur assms nd g1
        show ?thesis
          by (auto simp add: handleFormCompletion_def addError_def globalInv_def stepKeeps_def)
      next
        case None
        show ?thesis
        proof (cases "Debug (Bobarista.config f) \<and> Values cd = None")
          case True
          with \<open>e = None\<close> oc \<open>globalData f = Some g\<close> cur assms nd
          show ?thesis by (simp add: handleFormCompletion_def)
        next
          case nd2: False
          show ?thesis
          proof (cases "Values g1")
            case None
            with nd2 \<open>e = None\<close> oc \<open>globalData f = Some g\<close> cur assms nd
            show ?thesis by (auto simp add: handleFormCompletion_def)
          next
            case (Some gv)
            let ?g2 = "g1\<lparr>Values := Some (FormValues_Merge gv (Values cd))\<rparr>"
            let ?f2 = "f\<lparr>globalData := Some ?g2, formValues := writeBack f c sv\<rparr>"
            show ?thesis
            proof (cases "Next (navigator f) ?g2")
              case (Inl err)
              with Some nd2 \<open>e = None\<close> oc \<open>globalData f = Some g\<close> cur assms nd
              show ?thesis
                by (auto simp add: handleFormCompletion_def addError_def globalInv_def
                    stepKeeps_def Let_def)
            next
              case (Inr nextIndex)
              show ?thesis
              proof (cases "nextIndex = -2 \<or> nextIndex = -1")
                case True
                with Inr Some nd2 \<open>e = None\<close> oc \<open>globalData f = Some g\<close> cur assms nd
                show ?thesis
                  by (auto simp add: handleFormCompletion_def globalInv_def stepKeeps_def Let_def)
              next
                case False
                obtain e2 n' where mv: "MoveTo (navigator f) nextIndex = (e2, n')"
                  by (cases "MoveTo (navigator f) nextIndex")
                have fm: "Navigator.forms n' = Navigator.forms (navigator f)"
                  using forms_MoveTo[of "navigator f" nextIndex] mv by simp
                show ?thesis
                proof (cases e2)
                  case (Some err)
                  with mv False Inr \<open>Values g1 = Some gv\<close> nd2 \<open>e = None\<close> oc
                    \<open>globalData f = Some g\<close> cur assms nd fm
                  show ?thesis
                    by (auto simp add: handleFormCompletion_def addError_def globalInv_def
                        stepKeeps_def Let_def)
                next
                  case None
                  with mv False Inr \<open>Values g1 = Some gv\<close> nd2 \<open>e = None\<close> oc
                    \<open>globalData f = Some g\<close> cur assms nd
                  have "initCurrentForm (?f2\<lparr>navigator := n'\<rparr>) = Some (Return f' cmd)"
                    by (auto simp add: handleFormCompletion_def Let_def split: if_splits)
                  from initCurrentForm_keeps[OF this] fm
                  show ?thesis by (simp add: globalInv_def stepKeeps_def)
                qed
              qed
            qed
          qed
        qed
      qed
    qed
  qed
qed

lemma updateCurrentForm_keeps:
  assumes "updateCurrentForm f w = Some (Return f' cmd)"
  shows "stepKeeps f f'"
proof (cases "currentForm f")
  case None
  with assms show ?thesis by (auto simp add: updateCurrentForm_def stepKeeps_def)
next
  case (Some old)
  show ?thesis
  proof (cases "State w = HuhStateCompleted")
    case True
    with Some assms have "handleFormCompletion (f\<lparr>currentForm := Some w\<rparr>) = Some (Return f' cmd)"
      by (simp add: updateCurrentForm_def Let_def)
    from handleFormCompletion_keeps[OF this] show ?thesis
      by (simp add: globalInv_def stepKeeps_def)
  next
    case False
    with Some assms show ?thesis
      by (auto simp add: updateCurrentForm_def Let_def globalInv_def stepKeeps_def)
  qed
qed

lemma handleCompletedState_keeps:
  assumes "handleCompletedState f key = Return f' cmd"
  shows "stepKeeps f f' \<and> (state f' = state f \<or> state f' = StateError)"
  using assms
  by (auto simp add: handleCompletedState_def globalInv_def addError_def writeStore_def Let_def
      stepKeeps_def split: if_splits option.splits prod.splits)

lemma handleCompletedState_returns: "\<exists>f' cmd. handleCompletedState f key = Return f' cmd"
  by (auto simp add: handleCompletedState_def Let_def split: option.splits prod.splits)

lemma Update_keeps:
  assumes "Update f msg w = Some (Return f' cmd)"
  shows "stepKeeps f f'"
proof (cases msg)
  case (WindowSizeMsg width height)
  with assms show ?thesis
    by (auto simp add: Update_def globalInv_def stepKeeps_def split: option.splits)
next
  case (KeyMsg key)
  show ?thesis
  proof (cases "state f = StateCompleted \<or> state f = StateError")
    case True
    with KeyMsg assms have "handleCompletedState f key = Return f' cmd"
      by (simp add: Update_def)
    from handleCompletedState_keeps[OF this] show ?thesis by blast
  next
    case False
    show ?thesis
    proof (cases "key = ''ctrl+c'' \<or> key = ''esc'' \<or> \<not> (state f = StateActive \<and> currentForm f \<noteq> None)")
      case True
      with False KeyMsg assms show ?thesis
        by (auto simp add: Update_def stepKeeps_def split: if_splits)
    next
      case inner: False
      with False KeyMsg assms have "updateCurrentForm f w = Some (Return f' cmd)"
        by (simp add: Update_def)
      from updateCurrentForm_keeps[OF this] show ?thesis .
    qed
  qed
next
  case OtherMsg
  show ?thesis
  proof (cases "state f = StateActive \<and> currentForm f \<noteq> None")
    case True
    with OtherMsg assms have "updateCurrentForm f w = Some (Return f' cmd)"
      by (simp add: Update_def)
    from updateCurrentForm_keeps[OF this] show ?thesis .
  next
    case False
    with OtherMsg assms show ?thesis by (auto simp add: Update_def stepKeeps_def)
  qed
qed

lemma Init_keeps:
  assumes "Init f = Some (Return f' cmd)"
  shows "stepKeeps f f'"
proof -
  let ?f1 = "if globalData f = None
             then f\<lparr>globalData := Some \<lparr>FormData.ID = ''global'', Values = NewFormValues\<rparr>\<rparr>
             else f"
  let ?f2 = "if formValues ?f1 = None then ?f1\<lparr>formValues := Some Map.empty\<rparr> else ?f1"
  let ?f3 = "case OnInit (Bobarista.config ?f2) of
               None \<Rightarrow> ?f2
             | Some h \<Rightarrow>
                 (let formDataList =
                        map (\<lambda>form. \<lparr>FormData.ID = Form.ID form, Values = NewFormValues\<rparr>)
                            (Bobarista.forms ?f2)
                  in ?f2\<lparr>globalData :=
                          map_option (\<lambda>g. writeStore g (h (GetGlobalData ?f2) formDataList))
                                     (globalData ?f2)\<rparr>)"
  have i1: "(globalInv f \<longrightarrow> globalInv ?f1) \<and> state ?f1 = state f \<and> navigator ?f1 = navigator f"
    by (simp add: globalInv_def NewFormValues_def)
  then have i2: "(globalInv f \<longrightarrow> globalInv ?f2) \<and> state ?f2 = state f
                  \<and> navigator ?f2 = navigator f"
    by (simp add: globalInv_def)
  have i3: "(globalInv f \<longrightarrow> globalInv ?f3) \<and> state ?f3 = state f \<and> navigator ?f3 = navigator f"
  proof (cases "OnInit (Bobarista.config ?f2)")
    case None
    with i2 show ?thesis by simp
  next
    case (Some h)
    have "globalInv f \<longrightarrow> globalInv ?f3"
      using i2 unfolding Some
      by (cases "globalData ?f2") (simp_all add: globalInv_def Let_def writeStore_keeps)
    moreover have "state ?f3 = state f \<and> navigator ?f3 = navigator f"
      using i2 unfolding Some by (simp add: Let_def)
    ultimately show ?thesis by simp
  qed
  have run: "Init f = (case globalData ?f3 of
           None \<Rightarrow> Some Panic
         | Some g \<Rightarrow>
             (case MoveToFirstValid (navigator ?f3) g of
                (Some err, n') \<Rightarrow> Some (Return (addError (?f3\<lparr>navigator := n'\<rparr>) [] err) CmdNil)
              | (None, n') \<Rightarrow> initCurrentForm (?f3\<lparr>navigator := n'\<rparr>)))"
    by (simp add: Init_def Let_def)
  show ?thesis
  proof (cases "globalData ?f3")
    case None
    with run assms show ?thesis by simp
  next
    case (Some g)
    obtain e n' where mv: "MoveToFirstValid (navigator ?f3) g = (e, n')"
      by (cases "MoveToFirstValid (navigator ?f3) g")
    have fm: "Navigator.forms n' = Navigator.forms (navigator f)"
      using forms_MoveToFirstValid[of "navigator ?f3" g] mv i3 by simp
    show ?thesis
    proof (cases e)
      case (Some err)
      with mv \<open>globalData ?f3 = Some g\<close> run assms
      have "f' = addError (?f3\<lparr>navigator := n'\<rparr>) [] err" by simp
      with i3 fm show ?thesis by (simp add: addError_def globalInv_def stepKeeps_def)
    next
      case None
      with mv \<open>globalData ?f3 = Some g\<close> run assms
      have "initCurrentForm (?f3\<lparr>navigator := n'\<rparr>) = Some (Return f' cmd)" by simp
      from initCurrentForm_keeps[OF this] i3 fm show ?thesis
        by (simp add: globalInv_def stepKeeps_def)
    qed
  qed
qed

lemma hostWrite_keeps: "stepKeeps f (hostWrite f gw sw)"
  by (auto simp add: hostWrite_def globalInv_def stepKeeps_def split: option.splits)

lemma applyEvent_keeps:
  assumes "applyEvent f e = Some (Return f' cmd)"
  shows "stepKeeps f f'"
proof (cases e)
  case EvInit
  with assms Init_keeps[of f f' cmd] show ?thesis by simp
next
  case (EvUpdate msg w)
  with assms Update_keeps[of f msg w f' cmd] show ?thesis by simp
next
  case (EvWrite gw sw)
  with assms hostWrite_keeps[of f gw sw] show ?thesis by auto
qed

lemma runEvents_keeps:
  "runEvents f evs = Some (Return f' cmd) \<Longrightarrow> stepKeeps f f'"
proof (induction evs arbitrary: f)
  case Nil
  then show ?case by (simp add: stepKeeps_refl)
next
  case (Cons e es)
  from Cons.prems(1) obtain f1 c1 where
    st: "applyEvent f e = Some (Return f1 c1)" and rest: "runEvents f1 es = Some (Return f' cmd)"
    by (auto split: option.splits Outcome.splits)
  from applyEvent_keeps[OF st] Cons.IH[OF rest] show ?case by (rule stepKeeps_trans)
qed

lemma stepKeeps_state:
  "stepKeeps f f' \<Longrightarrow> state f' = state f \<or> state f' = StateCompleted \<or> state f' = StateError"
  by (simp add: stepKeeps_def)

lemma Update_inactive:
  assumes "state f \<noteq> StateActive"
  shows "\<exists>f' cmd. Update f msg w = Some (Return f' cmd)"
proof (cases msg)
  case (WindowSizeMsg width height)
  then show ?thesis by (auto simp add: Update_def split: option.splits)
next
  case (KeyMsg key)
  from assms have "state f = StateCompleted \<or> state f = StateError"
    by (cases "state f") simp_all
  with KeyMsg handleCompletedState_returns[of f key] show ?thesis
    by (auto simp add: Update_def)
next
  case OtherMsg
  with assms show ?thesis by (simp add: Update_def)
qed

lemma Update_Error:
  assumes "state f = StateError" and "Update f msg w = Some (Return f' cmd)"
  shows "state f' = StateError"
proof (cases msg)
  case (WindowSizeMsg width height)
  with assms show ?thesis by (auto simp add: Update_def split: option.splits)
next
  case (KeyMsg key)
  with assms have "handleCompletedState f key = Return f' cmd"
    by (simp add: Update_def)
  from handleCompletedState_keeps[OF this] assms(1) show ?thesis by auto
next
  case OtherMsg
  with assms show ?thesis by (auto simp add: Update_def)
qed

lemma finish_callback_error:
  assumes "state f = StateCompleted"
      and "Recipe.OnComplete (Bobarista.config f) = Some h"
      and "fst (h (GetGlobalData f)) = Some e"
  shows "\<exists>f'. Update f (KeyMsg ''enter'') w = Some (Return f' CmdNil) \<and> state f' = StateError"
proof -
  obtain gv where "h (GetGlobalData f) = (Some e, gv)"
    using assms(3) by (cases "h (GetGlobalData f)") simp
  with assms(1,2) show ?thesis
    by (simp add: Update_def handleCompletedState_def Let_def state_addError)
qed

text \<open>
  C9. No run of events leads back to Active: the state after a run is the state before it,
  Completed or Error, so a session that is Completed or in Error is never Active again, and
  the only states reached from Active are Completed and Error. Outside Active every event is
  handled and returns; Error stays Error; and Completed does turn into Error when the finish
  callback fails on the enter key.
\<close>

theorem session_state_never_reactivated:
  "(\<forall>f' cmd. runEvents f evs = Some (Return f' cmd)
       \<longrightarrow> (state f' = state f \<or> state f' = StateCompleted \<or> state f' = StateError)
           \<and> (state f \<noteq> StateActive \<longrightarrow> state f' \<noteq> StateActive))
   \<and> (state f \<noteq> StateActive
       \<longrightarrow> (\<exists>f' cmd. Update f msg w = Some (Return f' cmd)
              \<and> state f' \<noteq> StateActive
              \<and> (state f = StateError \<longrightarrow> state f' = StateError)))
   \<and> (\<forall>h e. state f = StateCompleted \<and> Recipe.OnComplete (Bobarista.config f) = Some h
             \<and> fst (h (GetGlobalData f)) = Some e
       \<longrightarrow> (\<exists>f'. Update f (KeyMsg ''enter'') w = Some (Return f' CmdNil)
              \<and> state f' = StateError))"
proof (intro conjI allI impI)
  fix f' cmd assume r: "runEvents f evs = Some (Return f' cmd)"
  from stepKeeps_state[OF runEvents_keeps[OF r]]
  show "state f' = state f \<or> state f' = StateCompleted \<or> state f' = StateError" .
  assume "state f \<noteq> StateActive"
  with stepKeeps_state[OF runEvents_keeps[OF r]] show "state f' \<noteq> StateActive" by auto
next
  assume na: "state f \<noteq> StateActive"
  from Update_inactive[OF na] obtain f' cmd where u: "Update f msg w = Some (Return f' cmd)"
    by blast
  from stepKeeps_state[OF Update_keeps[OF u]] na have "state f' \<noteq> StateActive" by auto
  moreover have "state f = StateError \<longrightarrow> state f' = StateError"
    using Update_Error[OF _ u] by blast
  ultimately show "\<exists>f' cmd. Update f msg w = Some (Return f' cmd)
              \<and> state f' \<noteq> StateActive
              \<and> (state f = StateError \<longrightarrow> state f' = StateError)"
    using u by blast
next
  fix h e
  assume "state f = StateCompleted \<and> Recipe.OnComplete (Bobarista.config f) = Some h
             \<and> fst (h (GetGlobalData f)) = Some e"
  then show "\<exists>f'. Update f (KeyMsg ''enter'') w = Some (Return f' CmdNil) \<and> state f' = StateError"
    using finish_callback_error[of f h e w] by blast
qed

theorem session_state_never_reactivated_witness:
  "map_option state (returned (Update completedSession (KeyMsg ''enter'') typing))
     = Some StateError
   \<and> map_option state (returned (Update completedSession (KeyMsg ''down'') typing))
     = Some StateCompleted
   \<and> map_option state
       (returned (runEvents completedSession
          [EvUpdate (KeyMsg ''enter'') typing, EvUpdate (KeyMsg ''enter'') filledIn,
           EvUpdate OtherMsg filledIn, EvUpdate (WindowSizeMsg 80 24) filledIn]))
     = Some StateError"
proof -
  have s: "state completedSession = StateCompleted"
    by (simp add: completedSession_def)
  have c: "Recipe.OnComplete (Bobarista.config completedSession) = Some failingFinish"
    by (simp add: completedSession_def)
  have e: "fst (failingFinish (GetGlobalData completedSession)) = Some (ErrorString ''disk full'')"
    by (simp add: failingFinish_def)
  have r: "runEvents completedSession
          [EvUpdate (KeyMsg ''enter'') typing, EvUpdate (KeyMsg ''enter'') filledIn,
           EvUpdate OtherMsg filledIn, EvUpdate (WindowSizeMsg 80 24) filledIn]
        = Some (Return (addError (completedSession\<lparr>currentForm := Some filledIn\<rparr>) []
                          (ErrorString ''disk full'')) CmdNil)"
    by (simp add: completedSession_def atFirstForm_def Update_def handleCompletedState_def
        failingFinish_def GetGlobalData_def writeStore_def storeOf_def globalQuick_def
        addError_def Let_def)
  have d: "Update completedSession (KeyMsg ''down'') typing = Some (Return completedSession CmdNil)"
    by (simp add: Update_def handleCompletedState_def s)
  from session_state_never_reactivated[of completedSession
      "[EvUpdate (KeyMsg ''enter'') typing, EvUpdate (KeyMsg ''enter'') filledIn,
        EvUpdate OtherMsg filledIn, EvUpdate (WindowSizeMsg 80 24) filledIn]"
      "KeyMsg ''down''" typing] s c e r d
  show ?thesis by (auto simp add: returned_def state_addError)
qed

section \<open>Properties of the data queries\<close>

lemma globalInv_Build: "globalInv (Build b)"
  by (simp add: globalInv_def Build_def Let_def NewFormValues_def)

lemma forms_Build: "Navigator.forms (navigator (Build b)) = BobaBuilder.forms b"
  by (simp add: Build_def Let_def NewNavigator_def)

lemma GetGlobalData_Values: "globalInv f \<Longrightarrow> Values (GetGlobalData f) \<noteq> None"
  by (simp add: GetGlobalData_def globalInv_def NewFormValues_def split: option.splits)

lemma GetGlobalData_nil:
  "(Values (GetGlobalData f) = None) = (\<exists>g. globalData f = Some g \<and> Values g = None)"
  by (simp add: GetGlobalData_def NewFormValues_def split: option.splits)

lemma GetCurrentFormData_Values: "Values (GetCurrentFormData f) \<noteq> None"
  by (simp add: GetCurrentFormData_def NewFormValues_def Let_def split: option.splits)

text \<open>
  C10, as the code has it. \<open>GetCurrentFormData\<close> never returns data whose store pointer is
  nil. \<open>GetGlobalData\<close> returns the controller's global data as it is, so its store pointer
  is nil exactly when that of the global data is: after any run of events from a controller
  made by \<open>Build\<close> it is not nil, provided no completion handler of the flow sets the
  \<^verbatim>\<open>Values\<close> field of the global data to nil (skip conditions, the other callback handed the
  controller's own pointer, are predicates here and leave it alone). \<open>Build\<close> sets the global
  data with an empty store; \<open>GetGlobalData\<close> puts a fresh empty store under the ID \<open>global\<close>
  in the place of a nil global data pointer; \<open>GetCurrentFormData\<close> returns a fresh empty store
  under the empty ID when no form is current, and a fresh empty store under the ID of the
  current form when the cache has nothing for that form.
\<close>

theorem data_queries_never_nil:
  "((\<forall>form \<in> set (BobaBuilder.forms b). \<forall>h cd g.
        Form.OnComplete form = Some h \<and> Values g \<noteq> None
        \<longrightarrow> Values (snd (snd (snd (h cd g)))) \<noteq> None)
     \<longrightarrow> (\<forall>f' cmd. runEvents (Build b) evs = Some (Return f' cmd)
            \<longrightarrow> Values (GetGlobalData f') \<noteq> None))
   \<and> ((Values (GetGlobalData f) = None) = (\<exists>g. globalData f = Some g \<and> Values g = None))
   \<and> Values (GetCurrentFormData f) \<noteq> None
   \<and> globalData (Build b) = Some \<lparr>FormData.ID = ''global'', Values = Some Map.empty\<rparr>
   \<and> (globalData f = None
        \<longrightarrow> GetGlobalData f = \<lparr>FormData.ID = ''global'', Values = Some Map.empty\<rparr>)
   \<and> (Current (navigator f) = None
        \<longrightarrow> GetCurrentFormData f = \<lparr>FormData.ID = [], Values = Some Map.empty\<rparr>)
   \<and> (\<forall>c. Current (navigator f) = Some c \<and> lookupFormValues (formValues f) (Form.ID c) = None
        \<longrightarrow> GetCurrentFormData f = \<lparr>FormData.ID = Form.ID c, Values = Some Map.empty\<rparr>)"
proof (intro conjI allI impI)
  fix f' cmd
  assume k: "\<forall>form \<in> set (BobaBuilder.forms b). \<forall>h cd g.
        Form.OnComplete form = Some h \<and> Values g \<noteq> None
        \<longrightarrow> Values (snd (snd (snd (h cd g)))) \<noteq> None"
  assume r: "runEvents (Build b) evs = Some (Return f' cmd)"
  from k have "keepsGlobalStore (Navigator.forms (navigator (Build b)))"
    by (simp add: keepsGlobalStore_def forms_Build)
  with runEvents_keeps[OF r] globalInv_Build[of b] have "globalInv f'"
    by (simp add: stepKeeps_def)
  then show "Values (GetGlobalData f') \<noteq> None" by (rule GetGlobalData_Values)
next
  show "(Values (GetGlobalData f) = None) = (\<exists>g. globalData f = Some g \<and> Values g = None)"
    by (rule GetGlobalData_nil)
next
  show "Values (GetCurrentFormData f) \<noteq> None" by (rule GetCurrentFormData_Values)
next
  show "globalData (Build b) = Some \<lparr>FormData.ID = ''global'', Values = Some Map.empty\<rparr>"
    by (simp add: Build_def Let_def NewFormValues_def)
next
  assume "globalData f = None"
  then show "GetGlobalData f = \<lparr>FormData.ID = ''global'', Values = Some Map.empty\<rparr>"
    by (simp add: GetGlobalData_def NewFormValues_def)
next
  assume "Current (navigator f) = None"
  then show "GetCurrentFormData f = \<lparr>FormData.ID = [], Values = Some Map.empty\<rparr>"
    by (simp add: GetCurrentFormData_def NewFormValues_def)
next
  fix c
  assume "Current (navigator f) = Some c \<and> lookupFormValues (formValues f) (Form.ID c) = None"
  then show "GetCurrentFormData f = \<lparr>FormData.ID = Form.ID c, Values = Some Map.empty\<rparr>"
    by (simp add: GetCurrentFormData_def Let_def)
qed

text \<open>
  C10 as stated fails twice. A completion handler is handed the controller's own pointer to
  the global data: when the handler of form A sets \<^verbatim>\<open>global.Values = nil\<close> and returns an
  error, the session built by \<open>Build\<close>, initialised and with form A filled in, ends in Error
  and \<open>GetGlobalData\<close> returns data whose store pointer is nil. And the data of a current
  form without cached values carries the ID of that form, here \<open>A\<close>, not the empty ID.
\<close>

theorem data_queries_counterexample:
  "map_option (\<lambda>f. (state f, Values (GetGlobalData f)))
     (returned (runEvents (Build builderNilling) [EvInit, EvUpdate (KeyMsg ''enter'') filledIn]))
     = Some (StateError, None)
   \<and> Current (navigator uncachedAtA) \<noteq> None
   \<and> lookupFormValues (formValues uncachedAtA) ''A'' = None
   \<and> FormData.ID (GetCurrentFormData uncachedAtA) = ''A''
   \<and> FormData.ID (GetCurrentFormData uncachedAtA) \<noteq> []"
proof -
  have "map_option (\<lambda>f. (state f, Values (GetGlobalData f)))
     (returned (runEvents (Build builderNilling) [EvInit, EvUpdate (KeyMsg ''enter'') filledIn]))
     = Some (StateError, None)"
    by (simp add: builderNilling_def Build_def New_def AddForm_def Init_def Let_def
        MoveToFirstValid_def NewNavigator_def findNextValidForm.simps WithGenerator_def
        WithOnComplete_def NewForm_def Current_def initCurrentForm.simps
        generateCurrentForm_def plainGenerator_def NewFormValues_def Update_def
        updateCurrentForm_def filledIn_def handleFormCompletion_def callOnComplete_def
        currentStepData_def lookupFormValues_def writeBack_def nillingHandler_def storeOf_def
        addError_def GetGlobalData_def debugPanics_def returned_def)
  moreover have "Current (navigator uncachedAtA) \<noteq> None
   \<and> lookupFormValues (formValues uncachedAtA) ''A'' = None
   \<and> FormData.ID (GetCurrentFormData uncachedAtA) = ''A''
   \<and> FormData.ID (GetCurrentFormData uncachedAtA) \<noteq> []"
    by (simp add: uncachedAtA_def builderAB_def Build_def New_def AddForm_def Let_def
        MoveToFirstValid_def NewNavigator_def findNextValidForm.simps WithGenerator_def
        NewForm_def formB_def Current_def lookupFormValues_def GetCurrentFormData_def)
  ultimately show ?thesis by simp
qed

theorem data_queries_never_nil_witness:
  "map_option (\<lambda>f. (state f, currentIdx (navigator f), Values (GetGlobalData f) \<noteq> None,
                     GetCurrentFormData f))
     (returned (runEvents (Build builderSaving)
        [EvInit, EvWrite (\<lambda>g. g(''name'' \<mapsto> Some ''Ada'')) (\<lambda>k s. s),
         EvUpdate (KeyMsg ''x'') filledIn]))
   = Some (StateActive, 1, True, \<lparr>FormData.ID = ''B'', Values = Some Map.empty\<rparr>)"
proof -
  have k: "\<forall>form \<in> set (BobaBuilder.forms builderSaving). \<forall>h cd g.
        Form.OnComplete form = Some h \<and> Values g \<noteq> None
        \<longrightarrow> Values (snd (snd (snd (h cd g)))) \<noteq> None"
    by (auto simp add: builderSaving_def New_def AddForm_def WithOnComplete_def WithGenerator_def
        NewForm_def formB_def savingHandler_def writeStore_def)
  have r: "\<exists>f' cmd. runEvents (Build builderSaving)
        [EvInit, EvWrite (\<lambda>g. g(''name'' \<mapsto> Some ''Ada'')) (\<lambda>k s. s),
         EvUpdate (KeyMsg ''x'') filledIn] = Some (Return f' cmd)
      \<and> state f' = StateActive \<and> currentIdx (navigator f') = 1
      \<and> GetCurrentFormData f' = \<lparr>FormData.ID = ''B'', Values = Some Map.empty\<rparr>"
    by (simp add: builderSaving_def Build_def New_def AddForm_def Init_def Let_def
        MoveToFirstValid_def NewNavigator_def findNextValidForm.simps WithGenerator_def
        WithOnComplete_def NewForm_def formB_def Current_def initCurrentForm.simps
        generateCurrentForm_def plainGenerator_def NewFormValues_def hostWrite_def Update_def
        updateCurrentForm_def filledIn_def handleFormCompletion_def callOnComplete_def
        currentStepData_def lookupFormValues_def writeBack_def Next_def MoveTo_def
        GetCurrentFormData_def debugPanics_def savingHandler_def storeOf_def writeStore_def)
  then obtain f' cmd where
    run: "runEvents (Build builderSaving)
        [EvInit, EvWrite (\<lambda>g. g(''name'' \<mapsto> Some ''Ada'')) (\<lambda>k s. s),
         EvUpdate (KeyMsg ''x'') filledIn] = Some (Return f' cmd)"
    and st: "state f' = StateActive" "currentIdx (navigator f') = 1"
      "GetCurrentFormData f' = \<lparr>FormData.ID = ''B'', Values = Some Map.empty\<rparr>"
    by blast
  from data_queries_never_nil[of builderSaving
      "[EvInit, EvWrite (\<lambda>g. g(''name'' \<mapsto> Some ''Ada'')) (\<lambda>k s. s),
        EvUpdate (KeyMsg ''x'') filledIn]" f'] k run
  have "Values (GetGlobalData f') \<noteq> None" by blast
  with run st show ?thesis by (simp add: returned_def)
qed

section \<open>Properties of the validation\<close>












end
